theory Spec2Isabelle
  imports Main
begin

section \<open>JavaScript strings\<close>

text \<open>
  A JavaScript string is a sequence of UTF-16 code units. A code unit is modelled as a
  natural number (a real one is below \<open>0x10000\<close>); \<open>str\<close> embeds an ASCII literal.
\<close>

type_synonym jsstring = "nat list"

definition str :: "string \<Rightarrow> jsstring" where
  "str s = map of_char s"

text \<open>
  The characters matched by \<^verbatim>\<open>\s\<close> in a regular expression and stripped by
  \<^verbatim>\<open>String.prototype.trim\<close>: ECMAScript's WhiteSpace and LineTerminator code points
  (TAB, LF, VT, FF, CR, SPACE, NBSP, the Unicode space separators, LS, PS, and the BOM).
\<close>

definition isWhiteSpace :: "nat \<Rightarrow> bool" where
  "isWhiteSpace c =
     (c = 0x09 \<or> c = 0x0A \<or> c = 0x0B \<or> c = 0x0C \<or> c = 0x0D \<or> c = 0x20 \<or> c = 0xA0 \<or>
      c = 0x1680 \<or> (0x2000 \<le> c \<and> c \<le> 0x200A) \<or> c = 0x2028 \<or> c = 0x2029 \<or>
      c = 0x202F \<or> c = 0x205F \<or> c = 0x3000 \<or> c = 0xFEFF)"

definition isAsciiLetter :: "nat \<Rightarrow> bool" where
  "isAsciiLetter c = ((0x41 \<le> c \<and> c \<le> 0x5A) \<or> (0x61 \<le> c \<and> c \<le> 0x7A))"

definition isAsciiDigit :: "nat \<Rightarrow> bool" where
  "isAsciiDigit c = (0x30 \<le> c \<and> c \<le> 0x39)"

text \<open>\<^verbatim>\<open>s.trim()\<close>: white space is removed from both ends.\<close>

definition trim :: "jsstring \<Rightarrow> jsstring" where
  "trim s = rev (dropWhile isWhiteSpace (rev (dropWhile isWhiteSpace s)))"

text \<open>
  \<^verbatim>\<open>s.split(sep)\<close> for a separator of one code unit. The empty string splits into one
  empty piece. The result is never empty, so the \<open>[]\<close> branch of the case is never taken.
\<close>

fun split_on :: "nat \<Rightarrow> jsstring \<Rightarrow> jsstring list" where
  "split_on sep [] = [[]]"
| "split_on sep (c # cs) =
     (if c = sep then [] # split_on sep cs
      else (case split_on sep cs of
              [] \<Rightarrow> [[c]]
            | w # ws \<Rightarrow> (c # w) # ws))"

text \<open>\<^verbatim>\<open>pieces.join(sep)\<close> for a separator of one code unit.\<close>

fun join_with :: "nat \<Rightarrow> jsstring list \<Rightarrow> jsstring" where
  "join_with sep [] = []"
| "join_with sep [w] = w"
| "join_with sep (w # v # ws) = w @ sep # join_with sep (v # ws)"

text \<open>\<^verbatim>\<open>s.charAt(0)\<close> is the empty string on the empty string; \<^verbatim>\<open>s.slice(1)\<close> likewise.\<close>

definition charAt0 :: "jsstring \<Rightarrow> jsstring" where
  "charAt0 s = take 1 s"

definition slice1 :: "jsstring \<Rightarrow> jsstring" where
  "slice1 s = drop 1 s"

subsection \<open>Case conversion\<close>

text \<open>
  \<^verbatim>\<open>toLowerCase\<close> and \<^verbatim>\<open>toUpperCase\<close> are built into the language and follow the Unicode case
  mappings. The tables are written out for Basic Latin and Latin-1 Supplement
  (\<open>U+0000\<close> to \<open>U+00FF\<close>): the letters \<open>A\<close> to \<open>Z\<close> and \<open>U+00C0\<close> to \<open>U+00DE\<close> (without the
  multiplication sign \<open>U+00D7\<close>) have lower-case forms 32 places up; upper-casing is the
  inverse except that the sharp s \<open>U+00DF\<close> becomes the two letters \<open>SS\<close>, the micro sign
  \<open>U+00B5\<close> becomes the Greek capital mu \<open>U+039C\<close> and \<open>U+00FF\<close> becomes \<open>U+0178\<close>. Code
  units above \<open>U+00FF\<close> are passed through. Of the statements below, the one on the
  title-casing pass holds whatever the two tables are, and the ones on idempotence are
  about strings that the tables cover.
\<close>

definition lowerUnit :: "nat \<Rightarrow> nat" where
  "lowerUnit c =
     (if (0x41 \<le> c \<and> c \<le> 0x5A) \<or> (0xC0 \<le> c \<and> c \<le> 0xDE \<and> c \<noteq> 0xD7) then c + 0x20 else c)"

definition upperUnit :: "nat \<Rightarrow> jsstring" where
  "upperUnit c =
     (if (0x61 \<le> c \<and> c \<le> 0x7A) \<or> (0xE0 \<le> c \<and> c \<le> 0xFE \<and> c \<noteq> 0xF7) then [c - 0x20]
      else if c = 0xDF then [0x53, 0x53]
      else if c = 0xB5 then [0x39C]
      else if c = 0xFF then [0x178]
      else [c])"

definition toLowerCase :: "jsstring \<Rightarrow> jsstring" where
  "toLowerCase s = map lowerUnit s"

definition toUpperCase :: "jsstring \<Rightarrow> jsstring" where
  "toUpperCase s = concat (map upperUnit s)"

section \<open>The exporter's string helpers (services/pdfService.ts)\<close>

text \<open>
  \<^verbatim>\<open>name.replace(/[^a-z0-9\s-]/gi, '')\<close>: every code unit that is not an ASCII letter (the
  \<^verbatim>\<open>i\<close> flag never folds a non-ASCII character onto an ASCII one), a digit, white space or
  the hyphen is removed.
\<close>

definition keptInFilename :: "nat \<Rightarrow> bool" where
  "keptInFilename c = (isAsciiLetter c \<or> isAsciiDigit c \<or> isWhiteSpace c \<or> c = 0x2D)"

definition removeInvalid :: "jsstring \<Rightarrow> jsstring" where
  "removeInvalid name = filter keptInFilename name"

text \<open>\<^verbatim>\<open>s.replace(/\s+/g, ' ')\<close>: every maximal run of white space becomes one space.\<close>

function collapseWhitespace :: "jsstring \<Rightarrow> jsstring" where
  "collapseWhitespace [] = []"
| "collapseWhitespace (c # cs) =
     (if isWhiteSpace c then 0x20 # collapseWhitespace (dropWhile isWhiteSpace cs)
      else c # collapseWhitespace cs)"
  by pat_completeness auto
termination
  by (relation "measure length") (auto simp: le_imp_less_Suc length_dropWhile_le)

definition fallbackName :: jsstring where
  "fallbackName = str ''translation''"

text \<open>
  \<^verbatim>\<open>name.replace(...).trim().replace(/\s+/g, ' ').slice(0, 50) || 'translation'\<close>: the empty
  string is the only falsy string.
\<close>

definition sanitizeFilename :: "jsstring \<Rightarrow> jsstring" where
  "sanitizeFilename name =
     (let s = take 50 (collapseWhitespace (trim (removeInvalid name)))
      in if s = [] then fallbackName else s)"

text \<open>
  \<^verbatim>\<open>if (!str) return ''; return str.toLowerCase().split(' ').map(word =>
  word.charAt(0).toUpperCase() + word.slice(1)).join(' ')\<close>
\<close>

definition capitalize :: "jsstring \<Rightarrow> jsstring" where
  "capitalize word = toUpperCase (charAt0 word) @ slice1 word"

definition toTitleCase :: "jsstring \<Rightarrow> jsstring" where
  "toTitleCase s =
     (if s = [] then []
      else join_with 0x20 (map capitalize (split_on 0x20 (toLowerCase s))))"

section \<open>JSON text (the language's JSON.parse)\<close>

text \<open>
  \<^verbatim>\<open>JSON.parse\<close> is built into the language. It is modelled as a recursive-descent parser of
  the JSON grammar. A number keeps the text of its literal (its floating-point value plays
  no part here); an object keeps its members in source order. \<open>None\<close> stands for the
  \<^verbatim>\<open>SyntaxError\<close> that \<^verbatim>\<open>JSON.parse\<close> throws. The limits of an engine (how deep arrays
  and objects may nest) are not modelled.
\<close>

datatype json =
    JNull
  | JBool bool
  | JNumber jsstring
  | JString jsstring
  | JArray "json list"
  | JObject "(jsstring \<times> json) list"

definition isJsonWs :: "nat \<Rightarrow> bool" where
  "isJsonWs c = (c = 0x20 \<or> c = 0x09 \<or> c = 0x0A \<or> c = 0x0D)"

definition skipWs :: "jsstring \<Rightarrow> jsstring" where
  "skipWs s = dropWhile isJsonWs s"

definition hexDigit :: "nat \<Rightarrow> nat option" where
  "hexDigit c =
     (if 0x30 \<le> c \<and> c \<le> 0x39 then Some (c - 0x30)
      else if 0x41 \<le> c \<and> c \<le> 0x46 then Some (c - 0x37)
      else if 0x61 \<le> c \<and> c \<le> 0x66 then Some (c - 0x57)
      else None)"

definition hex4 :: "nat \<Rightarrow> nat \<Rightarrow> nat \<Rightarrow> nat \<Rightarrow> nat option" where
  "hex4 a b c d =
     (case (hexDigit a, hexDigit b, hexDigit c, hexDigit d) of
        (Some w, Some x, Some y, Some z) \<Rightarrow> Some (((w * 16 + x) * 16 + y) * 16 + z)
      | _ \<Rightarrow> None)"

definition unescape :: "nat \<Rightarrow> nat option" where
  "unescape e =
     (if e = 0x22 \<or> e = 0x5C \<or> e = 0x2F then Some e
      else if e = 0x62 then Some 0x08
      else if e = 0x66 then Some 0x0C
      else if e = 0x6E then Some 0x0A
      else if e = 0x72 then Some 0x0D
      else if e = 0x74 then Some 0x09
      else None)"

fun parseString :: "jsstring \<Rightarrow> (jsstring \<times> jsstring) option" where
  "parseString [] = None"
| "parseString (c # cs) =
     (if c = 0x22 then Some ([], cs)
      else if c = 0x5C then
        (case cs of
           [] \<Rightarrow> None
         | e # r \<Rightarrow>
             if e = 0x75 then
               (case r of
                  h1 # h2 # h3 # h4 # r' \<Rightarrow>
                    (case hex4 h1 h2 h3 h4 of
                       None \<Rightarrow> None
                     | Some u \<Rightarrow> map_option (apfst ((#) u)) (parseString r'))
                | _ \<Rightarrow> None)
             else
               (case unescape e of
                  None \<Rightarrow> None
                | Some u \<Rightarrow> map_option (apfst ((#) u)) (parseString r)))
      else if c < 0x20 then None
      else map_option (apfst ((#) c)) (parseString cs))"

definition digits1 :: "jsstring \<Rightarrow> (jsstring \<times> jsstring) option" where
  "digits1 s =
     (if takeWhile isAsciiDigit s = [] then None
      else Some (takeWhile isAsciiDigit s, dropWhile isAsciiDigit s))"

definition parseInt :: "jsstring \<Rightarrow> (jsstring \<times> jsstring) option" where
  "parseInt s =
     (case s of
        [] \<Rightarrow> None
      | c # cs \<Rightarrow> if c = 0x30 then Some ([c], cs) else digits1 s)"

definition parseFrac :: "jsstring \<Rightarrow> (jsstring \<times> jsstring) option" where
  "parseFrac s =
     (case s of
        [] \<Rightarrow> Some ([], s)
      | c # cs \<Rightarrow>
          if c = 0x2E then map_option (apfst ((#) c)) (digits1 cs) else Some ([], s))"

definition parseExp :: "jsstring \<Rightarrow> (jsstring \<times> jsstring) option" where
  "parseExp s =
     (case s of
        [] \<Rightarrow> Some ([], s)
      | c # cs \<Rightarrow>
          if c = 0x65 \<or> c = 0x45 then
            (case cs of
               [] \<Rightarrow> None
             | d # ds \<Rightarrow>
                 if d = 0x2B \<or> d = 0x2D then map_option (apfst (\<lambda>t. c # d # t)) (digits1 ds)
                 else map_option (apfst ((#) c)) (digits1 cs))
          else Some ([], s))"

definition parseNumber :: "jsstring \<Rightarrow> (jsstring \<times> jsstring) option" where
  "parseNumber s =
     (let (sign, s0) = (case s of [] \<Rightarrow> ([], s) | c # cs \<Rightarrow> if c = 0x2D then ([c], cs) else ([], s))
      in case parseInt s0 of
           None \<Rightarrow> None
         | Some (i, s1) \<Rightarrow>
             (case parseFrac s1 of
                None \<Rightarrow> None
              | Some (f, s2) \<Rightarrow>
                  (case parseExp s2 of
                     None \<Rightarrow> None
                   | Some (e, s3) \<Rightarrow> Some (sign @ i @ f @ e, s3))))"

text \<open>
  A value, the elements of an array after its bracket, and the members of an object after
  its brace. Every recursive call is on a strictly shorter rest of the input; the tests
  \<open>length _ < length s\<close> say so where the rest comes out of another call, and they always
  succeed (lemma \<open>parse_consumes\<close> below).
\<close>

function parseValue :: "jsstring \<Rightarrow> (json \<times> jsstring) option"
  and parseElements :: "jsstring \<Rightarrow> (json list \<times> jsstring) option"
  and parseMembers :: "jsstring \<Rightarrow> ((jsstring \<times> json) list \<times> jsstring) option"
where
  "parseValue s =
     (case skipWs s of
        [] \<Rightarrow> None
      | c # cs \<Rightarrow>
          if c = 0x5B then
            (case skipWs cs of
               [] \<Rightarrow> None
             | d # ds \<Rightarrow>
                 if d = 0x5D then Some (JArray [], ds)
                 else if length cs < length s then map_option (apfst JArray) (parseElements cs)
                 else None)
          else if c = 0x7B then
            (case skipWs cs of
               [] \<Rightarrow> None
             | d # ds \<Rightarrow>
                 if d = 0x7D then Some (JObject [], ds)
                 else if length cs < length s then map_option (apfst JObject) (parseMembers cs)
                 else None)
          else if c = 0x22 then map_option (apfst JString) (parseString cs)
          else if take 4 (c # cs) = str ''true'' then Some (JBool True, drop 3 cs)
          else if take 5 (c # cs) = str ''false'' then Some (JBool False, drop 4 cs)
          else if take 4 (c # cs) = str ''null'' then Some (JNull, drop 3 cs)
          else map_option (apfst JNumber) (parseNumber (c # cs)))"
| "parseElements s =
     (case parseValue s of
        None \<Rightarrow> None
      | Some (v, r) \<Rightarrow>
          (case skipWs r of
             [] \<Rightarrow> None
           | c # cs \<Rightarrow>
               if c = 0x5D then Some ([v], cs)
               else if c = 0x2C \<and> length cs < length s
                 then map_option (apfst ((#) v)) (parseElements cs)
               else None))"
| "parseMembers s =
     (case skipWs s of
        [] \<Rightarrow> None
      | q # ks \<Rightarrow>
          if q \<noteq> 0x22 then None
          else
            (case parseString ks of
               None \<Rightarrow> None
             | Some (k, r) \<Rightarrow>
                 (case skipWs r of
                    [] \<Rightarrow> None
                  | c # vs \<Rightarrow>
                      if c = 0x3A \<and> length vs < length s then
                        (case parseValue vs of
                           None \<Rightarrow> None
                         | Some (v, r') \<Rightarrow>
                             (case skipWs r' of
                                [] \<Rightarrow> None
                              | d # ds \<Rightarrow>
                                  if d = 0x7D then Some ([(k, v)], ds)
                                  else if d = 0x2C \<and> length ds < length s
                                    then map_option (apfst ((#) (k, v))) (parseMembers ds)
                                  else None))
                      else None)))"
  by pat_completeness auto
termination
  by (relation "measure (\<lambda>x. case x of
          Inl s \<Rightarrow> 2 * length s
        | Inr (Inl s) \<Rightarrow> 2 * length s + 1
        | Inr (Inr s) \<Rightarrow> 2 * length s + 1)") auto

declare parseValue.simps [simp del]
declare parseElements.simps [simp del]
declare parseMembers.simps [simp del]

definition JSON_parse :: "jsstring \<Rightarrow> json option" where
  "JSON_parse s =
     (case parseValue s of
        None \<Rightarrow> None
      | Some (v, r) \<Rightarrow> if skipWs r = [] then Some v else None)"


section \<open>Segment pairs and thrown values\<close>

record TranslationPair =
  arabic :: jsstring
  english :: jsstring

text \<open>
  A thrown or rejected value is an \<^verbatim>\<open>Error\<close> object with its message, or some other value.
  \<open>messageOr\<close> is the handlers' \<^verbatim>\<open>err instanceof Error ? err.message : fallback\<close>.
\<close>

datatype thrown = Error jsstring | NonError

definition messageOr :: "thrown \<Rightarrow> jsstring \<Rightarrow> jsstring" where
  "messageOr err fallback = (case err of Error message \<Rightarrow> message | NonError \<Rightarrow> fallback)"

text \<open>A \<^verbatim>\<open>console.error\<close> call: its label and the error object passed with it, if any.\<close>

datatype logged = Logged jsstring "thrown option"

section \<open>The translator adapter (services/geminiService.ts)\<close>

text \<open>
  \<open>translationSchema\<close>: an array of objects whose required properties \<^verbatim>\<open>arabic\<close> and
  \<^verbatim>\<open>english\<close> are strings. Reading a property of a parsed object finds its last member of
  that name. \<open>asTranslationPairs\<close> reads a parsed value through the declared type
  \<^verbatim>\<open>TranslationPair[]\<close>; it is defined on the values that match the schema.
\<close>

definition property :: "(jsstring \<times> json) list \<Rightarrow> jsstring \<Rightarrow> json option" where
  "property members k = map_of (rev members) k"

definition pairOf :: "json \<Rightarrow> TranslationPair option" where
  "pairOf v =
     (case v of
        JObject members \<Rightarrow>
          (case (property members (str ''arabic''), property members (str ''english'')) of
             (Some (JString a), Some (JString e)) \<Rightarrow> Some \<lparr>arabic = a, english = e\<rparr>
           | _ \<Rightarrow> None)
      | _ \<Rightarrow> None)"

definition asTranslationPairs :: "json \<Rightarrow> TranslationPair list option" where
  "asTranslationPairs v = (case v of JArray items \<Rightarrow> those (map pairOf items) | _ \<Rightarrow> None)"

definition matchesSchema :: "json \<Rightarrow> bool" where
  "matchesSchema v = (asTranslationPairs v \<noteq> None)"

definition translationFailure :: thrown where
  "translationFailure =
     Error (str ''Failed to translate and align text. The model may have returned an invalid response.'')"

text \<open>Stands for the \<^verbatim>\<open>SyntaxError\<close> of \<^verbatim>\<open>JSON.parse\<close>; its message is the engine's own.\<close>

definition syntaxError :: thrown where
  "syntaxError = Error (str ''SyntaxError'')"

text \<open>
  \<open>translateAndAlignText\<close>. The service call \<^verbatim>\<open>ai.models.generateContent\<close> is a parameter: given
  the source text (which the adapter wraps in its fixed prompt) it rejects with a thrown
  value or resolves with a response, whose \<^verbatim>\<open>text\<close> is a string or \<^verbatim>\<open>undefined\<close>;
  \<^verbatim>\<open>JSON.parse(undefined)\<close> parses the text \<^verbatim>\<open>undefined\<close>. The result is the promise's outcome
  (\<open>Inl\<close> a rejection, \<open>Inr\<close> the resolved value) and what was written to the console.
  \<^verbatim>\<open>return result as TranslationPair[]\<close> is a type assertion: the parsed value is returned as
  it is.
\<close>

definition translateAndAlignText ::
    "(jsstring \<Rightarrow> thrown + jsstring option) \<Rightarrow> jsstring \<Rightarrow> (thrown + json) \<times> logged list" where
  "translateAndAlignText generateContent text =
     (case generateContent text of
        Inl error \<Rightarrow>
          (Inl translationFailure, [Logged (str ''Error calling Gemini API:'') (Some error)])
      | Inr responseText \<Rightarrow>
          (let jsonString = (case responseText of None \<Rightarrow> str ''undefined'' | Some t \<Rightarrow> t)
           in case JSON_parse jsonString of
                None \<Rightarrow>
                  (Inl translationFailure,
                   [Logged (str ''Error calling Gemini API:'') (Some syntaxError)])
              | Some result \<Rightarrow> (Inr result, [])))"

section \<open>The document exporter (services/pdfService.ts)\<close>

subsection \<open>The document description handed to the docx library\<close>

datatype AlignmentType = CENTER | LEFT | RIGHT

datatype UnderlineType = SINGLE

datatype VerticalAlign = TOP

datatype PageOrientation = LANDSCAPE

datatype WidthType = DXA

text \<open>The options objects of the library's constructors; an option left out is \<open>None\<close>.\<close>

record TextRun =
  run_text :: jsstring
  run_font :: jsstring
  run_size :: nat
  run_bold :: "bool option"
  run_underline :: "UnderlineType option"
  run_rtl :: "bool option"

record Paragraph =
  par_text :: "jsstring option"
  par_alignment :: "AlignmentType option"
  par_bidirectional :: "bool option"
  par_children :: "TextRun list"

record TableCell =
  cell_verticalAlign :: VerticalAlign
  cell_children :: "Paragraph list"

record TableRow =
  row_cantSplit :: "bool option"
  row_children :: "TableCell list"

record Table =
  table_rows :: "TableRow list"
  table_width :: "nat \<times> WidthType"
  table_columnWidths :: "nat list"

datatype SectionChild = ParagraphChild Paragraph | TableChild Table

record Page =
  page_width :: nat
  page_height :: nat
  page_orientation :: PageOrientation
  page_margin_top :: nat
  page_margin_right :: nat
  page_margin_bottom :: nat
  page_margin_left :: nat

record Document =
  doc_page :: Page
  doc_children :: "SectionChild list"

subsection \<open>Document assembly in services/pdfService.ts\<close>

definition FONT_FAMILY :: jsstring where
  "FONT_FAMILY = str ''Arial''"

definition FONT_SIZE_PT :: nat where
  "FONT_SIZE_PT = 24"

definition FONT_SIZE_HALF_PT :: nat where
  "FONT_SIZE_HALF_PT = FONT_SIZE_PT * 2"

definition arabicTitle :: "TranslationPair \<Rightarrow> Paragraph" where
  "arabicTitle titlePair =
     \<lparr>par_text = None, par_alignment = Some CENTER, par_bidirectional = Some True,
      par_children =
        [\<lparr>run_text = arabic titlePair, run_font = FONT_FAMILY, run_size = FONT_SIZE_HALF_PT,
          run_bold = Some True, run_underline = Some SINGLE, run_rtl = Some True\<rparr>]\<rparr>"

definition englishTitle :: "jsstring \<Rightarrow> Paragraph" where
  "englishTitle englishTitleText =
     \<lparr>par_text = None, par_alignment = Some CENTER, par_bidirectional = None,
      par_children =
        [\<lparr>run_text = englishTitleText, run_font = FONT_FAMILY, run_size = FONT_SIZE_HALF_PT,
          run_bold = Some True, run_underline = Some SINGLE, run_rtl = None\<rparr>]\<rparr>"

definition spacer :: Paragraph where
  "spacer = \<lparr>par_text = Some [], par_alignment = None, par_bidirectional = None, par_children = []\<rparr>"

definition tableRows :: "TranslationPair list \<Rightarrow> TableRow list" where
  "tableRows bodyPairs =
     map (\<lambda>pair.
       \<lparr>row_cantSplit = None,
        row_children =
          [\<lparr>cell_verticalAlign = TOP,
            cell_children =
              [\<lparr>par_text = None, par_alignment = None, par_bidirectional = Some True,
                par_children =
                  [\<lparr>run_text = arabic pair, run_font = FONT_FAMILY,
                    run_size = FONT_SIZE_HALF_PT, run_bold = None, run_underline = None,
                    run_rtl = Some True\<rparr>]\<rparr>]\<rparr>,
           \<lparr>cell_verticalAlign = TOP,
            cell_children =
              [\<lparr>par_text = None, par_alignment = Some LEFT, par_bidirectional = None,
                par_children =
                  [\<lparr>run_text = english pair, run_font = FONT_FAMILY,
                    run_size = FONT_SIZE_HALF_PT, run_bold = None, run_underline = None,
                    run_rtl = None\<rparr>]\<rparr>]\<rparr>]\<rparr>) bodyPairs"

definition tableWidth :: nat where
  "tableWidth = 14400"

definition columnWidth :: nat where
  "columnWidth = tableWidth div 2"

definition bodyTable :: "TableRow list \<Rightarrow> Table" where
  "bodyTable rows =
     \<lparr>table_rows = rows, table_width = (tableWidth, DXA),
      table_columnWidths = [columnWidth, columnWidth]\<rparr>"

definition page :: Page where
  "page =
     \<lparr>page_width = 15840, page_height = 12240, page_orientation = LANDSCAPE,
      page_margin_top = 720, page_margin_right = 720, page_margin_bottom = 720,
      page_margin_left = 720\<rparr>"

text \<open>
  \<^verbatim>\<open>children: [arabicTitle, englishTitle, spacer, ...(bodyPairs.length > 0 ? [bodyTable] : [])]\<close>
\<close>

definition sectionChildren ::
    "Paragraph \<Rightarrow> Paragraph \<Rightarrow> TranslationPair list \<Rightarrow> TableRow list \<Rightarrow> SectionChild list" where
  "sectionChildren arabicT englishT bodyPairs rows =
     [ParagraphChild arabicT, ParagraphChild englishT, ParagraphChild spacer] @
     (if length bodyPairs > 0 then [TableChild (bodyTable rows)] else [])"

definition doc :: "TranslationPair \<Rightarrow> TranslationPair list \<Rightarrow> Document" where
  "doc titlePair bodyPairs =
     \<lparr>doc_page = page,
      doc_children =
        sectionChildren (arabicTitle titlePair) (englishTitle (toTitleCase (english titlePair)))
          bodyPairs (tableRows bodyPairs)\<rparr>"

subsection \<open>Document assembly in the exporter that splits lines (\<^verbatim>\<open>unnamed/part_000\<close>)\<close>

text \<open>
  \<^verbatim>\<open>text.split(/\r?\n/)\<close>: the text is cut at every line feed, and a carriage return right
  before the line feed goes with it.
\<close>

fun split_lines :: "jsstring \<Rightarrow> jsstring list" where
  "split_lines [] = [[]]"
| "split_lines [c] = (if c = 0x0A then [[], []] else [[c]])"
| "split_lines (c # d # cs) =
     (if c = 0x0A then [] # split_lines (d # cs)
      else if c = 0x0D \<and> d = 0x0A then [] # split_lines cs
      else (case split_lines (d # cs) of
              [] \<Rightarrow> [[c]]
            | w # ws \<Rightarrow> (c # w) # ws))"

definition createParagraphsFromText :: "jsstring \<Rightarrow> bool \<Rightarrow> AlignmentType \<Rightarrow> Paragraph list" where
  "createParagraphsFromText text isRtl alignment =
     map (\<lambda>line.
       \<lparr>par_text = None, par_alignment = Some alignment, par_bidirectional = None,
        par_children =
          [\<lparr>run_text = trim line, run_font = FONT_FAMILY, run_size = FONT_SIZE_HALF_PT,
            run_bold = None, run_underline = None, run_rtl = Some isRtl\<rparr>]\<rparr>) (split_lines text)"

definition arabicTitle_lines :: "TranslationPair \<Rightarrow> Paragraph" where
  "arabicTitle_lines titlePair =
     \<lparr>par_text = None, par_alignment = Some CENTER, par_bidirectional = None,
      par_children =
        [\<lparr>run_text = arabic titlePair, run_font = FONT_FAMILY, run_size = FONT_SIZE_HALF_PT,
          run_bold = Some True, run_underline = Some SINGLE, run_rtl = Some True\<rparr>]\<rparr>"

definition tableRows_lines :: "TranslationPair list \<Rightarrow> TableRow list" where
  "tableRows_lines bodyPairs =
     map (\<lambda>pair.
       \<lparr>row_cantSplit = Some True,
        row_children =
          [\<lparr>cell_verticalAlign = TOP,
            cell_children = createParagraphsFromText (arabic pair) True RIGHT\<rparr>,
           \<lparr>cell_verticalAlign = TOP,
            cell_children = createParagraphsFromText (english pair) False LEFT\<rparr>]\<rparr>) bodyPairs"

definition doc_lines :: "TranslationPair \<Rightarrow> TranslationPair list \<Rightarrow> Document" where
  "doc_lines titlePair bodyPairs =
     \<lparr>doc_page = page,
      doc_children =
        sectionChildren (arabicTitle_lines titlePair)
          (englishTitle (toTitleCase (english titlePair))) bodyPairs (tableRows_lines bodyPairs)\<rparr>"

subsection \<open>exportToWord\<close>

text \<open>
  What the exporter does to the world: lines on the console and downloads started by
  \<^verbatim>\<open>saveAs\<close>. The libraries are parameters: whether a constructor of the document
  description throws, whether \<^verbatim>\<open>Packer.toBlob\<close> rejects or resolves with a blob, and whether
  \<^verbatim>\<open>saveAs\<close> throws (a download is recorded when \<^verbatim>\<open>saveAs\<close> returns).
\<close>

datatype Blob = Blob Document

record World =
  console :: "logged list"
  downloads :: "(Blob \<times> jsstring) list"

record Library =
  assemblyThrows :: "thrown option"
  toBlob :: "Document \<Rightarrow> thrown + Blob"
  saveAs :: "Blob \<Rightarrow> jsstring \<Rightarrow> thrown option"

definition console_error :: "jsstring \<Rightarrow> thrown option \<Rightarrow> World \<Rightarrow> World" where
  "console_error label err world = world\<lparr>console := console world @ [Logged label err]\<rparr>"

text \<open>
  \<^verbatim>\<open>Packer.toBlob(doc).then(blob => { ...; saveAs(blob, filename); }).catch(error =>
  console.error("Error generating Word document:", error))\<close>: a rejection of the packer and an
  exception of the \<^verbatim>\<open>then\<close> callback both reach the \<^verbatim>\<open>catch\<close> callback. The result is the world
  once the promise chain has settled.
\<close>

definition generateAndDownload :: "Library \<Rightarrow> World \<Rightarrow> Document \<Rightarrow> jsstring \<Rightarrow> World" where
  "generateAndDownload lib world d englishTitleText =
     (case toBlob lib d of
        Inl error \<Rightarrow> console_error (str ''Error generating Word document:'') (Some error) world
      | Inr blob \<Rightarrow>
          (let baseFilename = sanitizeFilename englishTitleText;
               filename = baseFilename @ str '' (Arabic + English).docx''
           in case saveAs lib blob filename of
                Some error \<Rightarrow>
                  console_error (str ''Error generating Word document:'') (Some error) world
              | None \<Rightarrow> world\<lparr>downloads := downloads world @ [(blob, filename)]\<rparr>))"

text \<open>
  \<open>exportToWord\<close> of services/pdfService.ts. The first component of the result is the
  exception that leaves the call, if any: nothing in the function catches what a constructor
  throws while the document is assembled. \<^verbatim>\<open>data.length > 1 ? data.slice(1) : []\<close> is the list
  without its first element.
\<close>

definition exportToWord :: "Library \<Rightarrow> World \<Rightarrow> TranslationPair list \<Rightarrow> thrown option \<times> World" where
  "exportToWord lib world data =
     (case data of
        [] \<Rightarrow> (None, console_error (str ''No data available to export.'') None world)
      | titlePair # rest \<Rightarrow>
          (let bodyPairs = (if length data > 1 then rest else []);
               englishTitleText = toTitleCase (english titlePair)
           in case assemblyThrows lib of
                Some error \<Rightarrow> (Some error, world)
              | None \<Rightarrow>
                  (None, generateAndDownload lib world (doc titlePair bodyPairs) englishTitleText)))"

text \<open>\<open>exportToWord\<close> of \<^verbatim>\<open>unnamed/part_000\<close>: the same but for the document assembled.\<close>

definition exportToWord_lines ::
    "Library \<Rightarrow> World \<Rightarrow> TranslationPair list \<Rightarrow> thrown option \<times> World" where
  "exportToWord_lines lib world data =
     (case data of
        [] \<Rightarrow> (None, console_error (str ''No data available to export.'') None world)
      | titlePair # rest \<Rightarrow>
          (let bodyPairs = (if length data > 1 then rest else []);
               englishTitleText = toTitleCase (english titlePair)
           in case assemblyThrows lib of
                Some error \<Rightarrow> (Some error, world)
              | None \<Rightarrow>
                  (None,
                   generateAndDownload lib world (doc_lines titlePair bodyPairs) englishTitleText)))"

section \<open>The presentation layer (App.tsx)\<close>

record AppState =
  arabicText :: jsstring
  translationPairs :: "TranslationPair list"
  isLoading :: bool
  error :: "jsstring option"
  isExporting :: bool

text \<open>
  \<open>handleTranslate\<close> up to its \<^verbatim>\<open>await\<close>: the new state, and the text with which
  \<open>translateAndAlignText\<close> has been called (\<open>None\<close> when the handler returned without a call).
\<close>

definition handleTranslate_begin :: "AppState \<Rightarrow> AppState \<times> jsstring option" where
  "handleTranslate_begin st =
     (if trim (arabicText st) = []
      then (st\<lparr>error := Some (str ''Please enter some Arabic text to translate.'')\<rparr>, None)
      else (st\<lparr>isLoading := True, error := None, translationPairs := []\<rparr>, Some (arabicText st)))"

text \<open>\<open>handleTranslate\<close> from the moment the awaited promise settles: try, catch, finally.\<close>

definition handleTranslate_settle :: "AppState \<Rightarrow> thrown + TranslationPair list \<Rightarrow> AppState" where
  "handleTranslate_settle st outcome =
     (case outcome of
        Inr result \<Rightarrow> st\<lparr>translationPairs := result\<rparr>
      | Inl err \<Rightarrow> st\<lparr>error := Some (messageOr err (str ''An unknown error occurred.''))\<rparr>)
     \<lparr>isLoading := False\<rparr>"

text \<open>
  The whole handler, with the adapter as a parameter; the second component lists the
  adapter calls made.
\<close>

definition handleTranslate ::
    "(jsstring \<Rightarrow> thrown + TranslationPair list) \<Rightarrow> AppState \<Rightarrow> AppState \<times> jsstring list" where
  "handleTranslate adapter st =
     (case handleTranslate_begin st of
        (st', None) \<Rightarrow> (st', [])
      | (st', Some text) \<Rightarrow> (handleTranslate_settle st' (adapter text), [text]))"

text \<open>
  \<open>handleExport\<close>, with the exporter as a parameter. \<open>isExporting\<close> is set back by a timer
  800 ms later (\<open>exportTimerFired\<close>).
\<close>

definition handleExport ::
    "(World \<Rightarrow> TranslationPair list \<Rightarrow> thrown option \<times> World) \<Rightarrow> AppState \<times> World \<Rightarrow> AppState \<times> World"
  where
  "handleExport export sw =
     (case sw of (st, world) \<Rightarrow>
        if length (translationPairs st) = 0
        then (st\<lparr>error := Some (str ''There is nothing to export.'')\<rparr>, world)
        else
          (let st' = st\<lparr>isExporting := True, error := None\<rparr>
           in case export world (translationPairs st) of
                (None, world') \<Rightarrow> (st', world')
              | (Some err, world') \<Rightarrow>
                  (st'\<lparr>error := Some (messageOr err (str ''An unknown error occurred during export.''))\<rparr>,
                   world')))"

definition exportTimerFired :: "AppState \<Rightarrow> AppState" where
  "exportTimerFired st = st\<lparr>isExporting := False\<rparr>"

section \<open>Arrays and pair objects in a store\<close>

text \<open>
  To say that a call leaves an array or a pair object as it was, the objects are put in a
  store: a list of objects, an object's address being its position. A new object is
  appended. An array holds the addresses of its elements.
\<close>

datatype obj = PairObj TranslationPair | ArrayObj "nat list"

type_synonym store = "obj list"

definition alloc :: "obj \<Rightarrow> store \<Rightarrow> nat \<times> store" where
  "alloc ob h = (length h, h @ [ob])"

definition readPair :: "store \<Rightarrow> nat \<Rightarrow> TranslationPair option" where
  "readPair h a =
     (if a < length h then (case h ! a of PairObj p \<Rightarrow> Some p | ArrayObj refs \<Rightarrow> None) else None)"

definition readArray :: "store \<Rightarrow> nat \<Rightarrow> nat list option" where
  "readArray h a =
     (if a < length h then (case h ! a of ArrayObj refs \<Rightarrow> Some refs | PairObj p \<Rightarrow> None) else None)"

text \<open>The sequence of pairs that the array at an address holds.\<close>

definition pairsAt :: "store \<Rightarrow> nat \<Rightarrow> TranslationPair list option" where
  "pairsAt h a =
     (case readArray h a of None \<Rightarrow> None | Some refs \<Rightarrow> those (map (readPair h) refs))"

text \<open>
  \<open>exportToWord\<close> on the store. The function reads \<^verbatim>\<open>data.length\<close>, \<^verbatim>\<open>data[0]\<close> and the two
  properties of each pair; \<^verbatim>\<open>data.slice(1)\<close> and \<^verbatim>\<open>[]\<close> make a new array (of the same pair
  objects); nothing is assigned to an element of \<^verbatim>\<open>data\<close> or to a property of a pair. What
  the call does beyond the store is \<open>export\<close> on the pairs read. The result is \<open>None\<close> when
  \<^verbatim>\<open>data\<close> is not the address of an array of pairs.
\<close>

definition exportToWord_store ::
    "(World \<Rightarrow> TranslationPair list \<Rightarrow> thrown option \<times> World) \<Rightarrow> World \<Rightarrow> store \<Rightarrow> nat \<Rightarrow>
       ((thrown option \<times> World) \<times> store) option" where
  "exportToWord_store export world h data =
     (case readArray h data of
        None \<Rightarrow> None
      | Some refs \<Rightarrow>
          (case those (map (readPair h) refs) of
             None \<Rightarrow> None
           | Some pairs \<Rightarrow>
               if length refs = 0 then Some (export world pairs, h)
               else
                 (let (bodyPairs, h') = alloc (ArrayObj (if length refs > 1 then tl refs else [])) h
                  in Some (export world pairs, h'))))"

text \<open>
  The array that the adapter resolves with is new (made by \<^verbatim>\<open>JSON.parse\<close>), and so are its
  pair objects.
\<close>

definition allocArray :: "TranslationPair list \<Rightarrow> store \<Rightarrow> nat \<times> store" where
  "allocArray pairs h =
     alloc (ArrayObj [length h ..< length h + length pairs]) (h @ map PairObj pairs)"

text \<open>
  \<open>handleTranslate\<close> on the store: the address held by the state variable
  \<^verbatim>\<open>translationPairs\<close> before and after. \<^verbatim>\<open>setTranslationPairs([])\<close> stores the address of a new
  empty array and \<^verbatim>\<open>setTranslationPairs(result)\<close> the address of the adapter's array.
\<close>

definition handleTranslate_store ::
    "(jsstring \<Rightarrow> thrown + TranslationPair list) \<Rightarrow> AppState \<Rightarrow> nat \<times> store \<Rightarrow> nat \<times> store" where
  "handleTranslate_store adapter st rh =
     (case rh of (ref, h) \<Rightarrow>
        if trim (arabicText st) = [] then (ref, h)
        else
          (let (empty, h') = alloc (ArrayObj []) h
           in case adapter (arabicText st) of
                Inl err \<Rightarrow> (empty, h')
              | Inr result \<Rightarrow> allocArray result h'))"

section \<open>Notions used in the statements\<close>

text \<open>
  The title-casing as the claims word it: every character is lower-cased, and the first
  character of each word is then upper-cased, a word starting at the beginning of the
  string and after every space \<open>U+0020\<close> (and after nothing else). \<open>first\<close> says whether
  the next character starts a word.
\<close>

fun titleCase_spec :: "bool \<Rightarrow> jsstring \<Rightarrow> jsstring" where
  "titleCase_spec first [] = []"
| "titleCase_spec first (c # cs) =
     (if c = 0x20 then 0x20 # titleCase_spec True cs
      else (if first then upperUnit (lowerUnit c) else [lowerUnit c]) @ titleCase_spec False cs)"





definition paragraphText :: "Paragraph \<Rightarrow> jsstring" where
  "paragraphText p = concat (map run_text (par_children p))"


text \<open>
  A JSON text for a sequence of pairs: an array of objects with the members \<^verbatim>\<open>arabic\<close> and
  \<^verbatim>\<open>english\<close>, each a string in quotes in which the quote, the backslash and the control
  characters are escaped. \<open>pairJson\<close> is the value that the object of a pair denotes.
\<close>

definition hexChar :: "nat \<Rightarrow> nat" where
  "hexChar d = (if d < 10 then 0x30 + d else 0x57 + d)"

definition escapeUnit :: "nat \<Rightarrow> jsstring" where
  "escapeUnit c =
     (if c = 0x22 then [0x5C, 0x22]
      else if c = 0x5C then [0x5C, 0x5C]
      else if c < 0x20 then [0x5C, 0x75, 0x30, 0x30, hexChar (c div 16), hexChar (c mod 16)]
      else [c])"

definition quote :: "jsstring \<Rightarrow> jsstring" where
  "quote s = 0x22 # concat (map escapeUnit s) @ [0x22]"

definition stringifyPair :: "TranslationPair \<Rightarrow> jsstring" where
  "stringifyPair p =
     str ''{\"arabic\":'' @ quote (arabic p) @ str '',\"english\":'' @ quote (english p) @ str ''}''"

fun stringifyPairs :: "TranslationPair list \<Rightarrow> jsstring" where
  "stringifyPairs [] = []"
| "stringifyPairs [p] = stringifyPair p"
| "stringifyPairs (p # q # ps) = stringifyPair p @ 0x2C # stringifyPairs (q # ps)"

definition stringify :: "TranslationPair list \<Rightarrow> jsstring" where
  "stringify ps = 0x5B # stringifyPairs ps @ [0x5D]"

definition pairJson :: "TranslationPair \<Rightarrow> json" where
  "pairJson p =
     JObject [(str ''arabic'', JString (arabic p)), (str ''english'', JString (english p))]"

text \<open>
  Stand-ins for the outside world in the examples: a translation service that resolves with
  a given response text, libraries that work, and libraries whose packer rejects.
\<close>

definition serviceResolving :: "jsstring \<Rightarrow> jsstring \<Rightarrow> thrown + jsstring option" where
  "serviceResolving response text = Inr (Some response)"

definition adapterRejecting :: "thrown \<Rightarrow> jsstring \<Rightarrow> thrown + TranslationPair list" where
  "adapterRejecting err text = Inl err"

definition adapterResolving ::
    "TranslationPair list \<Rightarrow> jsstring \<Rightarrow> thrown + TranslationPair list" where
  "adapterResolving result text = Inr result"

definition libraryWorking :: Library where
  "libraryWorking =
     \<lparr>assemblyThrows = None, toBlob = (\<lambda>d. Inr (Blob d)), saveAs = (\<lambda>blob filename. None)\<rparr>"

definition libraryPackerRejecting :: "thrown \<Rightarrow> Library" where
  "libraryPackerRejecting err =
     \<lparr>assemblyThrows = None, toBlob = (\<lambda>d. Inl err), saveAs = (\<lambda>blob filename. None)\<rparr>"

definition libraryAssemblyThrowing :: "thrown \<Rightarrow> Library" where
  "libraryAssemblyThrowing err =
     \<lparr>assemblyThrows = Some err, toBlob = (\<lambda>d. Inr (Blob d)), saveAs = (\<lambda>blob filename. None)\<rparr>"

definition emptyWorld :: World where
  "emptyWorld = \<lparr>console = [], downloads = []\<rparr>"

definition stateWith :: "jsstring \<Rightarrow> TranslationPair list \<Rightarrow> jsstring option \<Rightarrow> AppState" where
  "stateWith input pairs err =
     \<lparr>arabicText = input, translationPairs = pairs, isLoading = False, error = err,
      isExporting = False\<rparr>"

text \<open>Example data: a title pair, a body pair of two lines, a response of the service, a store.\<close>

definition exampleTitle :: TranslationPair where
  "exampleTitle = \<lparr>arabic = [0x623], english = str ''a title''\<rparr>"

definition exampleRow :: TranslationPair where
  "exampleRow =
     \<lparr>arabic = [0x628, 0x0A, 0x62A], english = str ''row one'' @ [0x0D, 0x0A] @ str ''line two''\<rparr>"

definition exampleResponse :: jsstring where
  "exampleResponse =
     str ''[{\"arabic\": \"'' @ [0x623] @ str ''\", \"english\": \"a title\"},'' @ [0x0A] @
     str '' {\"english\": \"row'' @ [0x5C, 0x6E] @ str ''one\", \"arabic\": \"'' @ [0x628] @ str ''\"}]''"

definition exampleStore :: store where
  "exampleStore = [PairObj exampleTitle, PairObj exampleRow, ArrayObj [0, 1]]"

section \<open>Title-casing\<close>

lemma split_on_nonempty: "split_on sep s \<noteq> []"
  by (induction s) (auto split: list.splits)

lemma lowerUnit_space: "(lowerUnit c = 0x20) = (c = 0x20)"
  by (auto simp: lowerUnit_def)

lemma join_with_Cons: "ws \<noteq> [] \<Longrightarrow> join_with sep (w # ws) = w @ sep # join_with sep ws"
  by (cases ws) auto

lemma capitalize_Nil: "capitalize [] = []"
  by (simp add: capitalize_def charAt0_def slice1_def toUpperCase_def)

lemma capitalize_Cons: "capitalize (c # w) = upperUnit c @ w"
  by (simp add: capitalize_def charAt0_def slice1_def toUpperCase_def)

text \<open>
  Splitting, capitalising each piece and joining again is one pass over the string. The
  second equation is the pass inside a word, whose first piece is not capitalised.
\<close>

lemma join_split_titleCase_spec:
  "join_with 0x20 (map capitalize (split_on 0x20 (map lowerUnit s))) = titleCase_spec True s \<and>
   join_with 0x20
     (hd (split_on 0x20 (map lowerUnit s)) # map capitalize (tl (split_on 0x20 (map lowerUnit s))))
     = titleCase_spec False s"
proof (induction s)
  case Nil
  show ?case by (simp add: capitalize_Nil)
next
  case (Cons c cs)
  obtain w ws where r: "split_on 0x20 (map lowerUnit cs) = w # ws"
    using split_on_nonempty[of "0x20" "map lowerUnit cs"]
    by (cases "split_on 0x20 (map lowerUnit cs)") auto
  from Cons r have ih1: "join_with 0x20 (capitalize w # map capitalize ws) = titleCase_spec True cs"
    and ih2: "join_with 0x20 (w # map capitalize ws) = titleCase_spec False cs" by simp_all
  show ?case
  proof (cases "c = 0x20")
    case True
    then have l: "lowerUnit c = 0x20" by (simp add: lowerUnit_space)
    show ?thesis using True l r ih1
      by (simp add: capitalize_Nil join_with_Cons)
  next
    case False
    then have l: "lowerUnit c \<noteq> 0x20" by (simp add: lowerUnit_space)
    show ?thesis
    proof (cases ws)
      case Nil
      then show ?thesis using False l r ih2 by (simp add: capitalize_Cons)
    next
      case (Cons v vs)
      then show ?thesis using False l r ih2 by (simp add: capitalize_Cons)
    qed
  qed
qed

lemma toTitleCase_is_titleCase_spec: "toTitleCase s = titleCase_spec True s"
  using join_split_titleCase_spec[of s] by (cases s) (simp_all add: toTitleCase_def toLowerCase_def)





text \<open>
  The pass on a title with a newline, a tab and two spaces in a row: only the letters at the
  start and after a space are capitals.
\<close>

lemma toTitleCase_example:
  "toTitleCase (str ''the FIRST'' @ [0x0A] @ str ''bOOK'' @ [0x09] @ str ''of  kings'') =
     str ''The First'' @ [0x0A] @ str ''book'' @ [0x09] @ str ''of  Kings''"
  by (simp add: toTitleCase_is_titleCase_spec str_def lowerUnit_def upperUnit_def)




section \<open>File names\<close>









section \<open>The JSON parser consumes its input\<close>

lemma length_skipWs: "length (skipWs s) \<le> length s"
  by (simp add: skipWs_def length_dropWhile_le)

lemma skipWs_Cons_length: "skipWs s = c # cs \<Longrightarrow> length cs < length s"
  using length_skipWs[of s] by simp

lemma map_apfst_Some: "map_option (apfst f) z = Some (x, r) \<Longrightarrow> \<exists>y. z = Some (y, r) \<and> x = f y"
  by (cases z) auto

lemma parseString_consumes: "parseString s = Some (x, r) \<Longrightarrow> length r < length s"
proof (induction s arbitrary: x r rule: length_induct)
  case (1 s)
  have step: "\<And>t y q. length t < length s \<Longrightarrow> parseString t = Some (y, q) \<Longrightarrow> length q < length t"
    using 1(1) by blast
  show ?case
  proof (cases s)
    case Nil
    with 1(2) show ?thesis by simp
  next
    case (Cons c cs)
    show ?thesis
    proof (cases "c = 0x22")
      case True
      with 1(2) Cons show ?thesis by simp
    next
      case nq: False
      show ?thesis
      proof (cases "c = 0x5C")
        case False
        with nq 1(2) Cons obtain y where "parseString cs = Some (y, r)"
          by (auto split: if_splits dest: map_apfst_Some)
        from step[OF _ this] Cons show ?thesis by simp
      next
        case True
        with nq 1(2) Cons obtain e r0 where cs: "cs = e # r0" by (cases cs) auto
        show ?thesis
        proof (cases "e = 0x75")
          case False
          with nq True 1(2) Cons cs obtain y where "parseString r0 = Some (y, r)"
            by (auto split: option.splits dest: map_apfst_Some)
          from step[OF _ this] Cons cs show ?thesis by simp
        next
          case u: True
          with nq True 1(2) Cons cs obtain h1 h2 h3 h4 r' where r0: "r0 = h1 # h2 # h3 # h4 # r'"
            by (auto split: list.splits)
          with u nq True 1(2) Cons cs obtain y where "parseString r' = Some (y, r)"
            by (auto split: option.splits dest: map_apfst_Some)
          from step[OF _ this] Cons cs r0 show ?thesis by simp
        qed
      qed
    qed
  qed
qed

lemma digits1_consumes: "digits1 s = Some (x, r) \<Longrightarrow> length r < length s"
proof -
  assume a: "digits1 s = Some (x, r)"
  then have t: "takeWhile isAsciiDigit s \<noteq> []" and r: "r = dropWhile isAsciiDigit s"
    by (auto simp: digits1_def split: if_splits)
  have "length (takeWhile isAsciiDigit s) + length (dropWhile isAsciiDigit s) = length s"
    by (metis length_append takeWhile_dropWhile_id)
  with t r show ?thesis by (cases "takeWhile isAsciiDigit s") auto
qed

lemma parseInt_consumes: "parseInt s = Some (x, r) \<Longrightarrow> length r < length s"
  by (auto simp: parseInt_def split: list.splits if_splits dest: digits1_consumes)

lemma parseFrac_consumes: "parseFrac s = Some (x, r) \<Longrightarrow> length r \<le> length s"
  by (auto simp: parseFrac_def split: list.splits if_splits dest!: map_apfst_Some digits1_consumes)

lemma parseExp_consumes: "parseExp s = Some (x, r) \<Longrightarrow> length r \<le> length s"
  by (auto simp: parseExp_def split: list.splits if_splits dest!: map_apfst_Some digits1_consumes)

lemma parseNumber_consumes: "parseNumber s = Some (x, r) \<Longrightarrow> length r < length s"
proof -
  assume a: "parseNumber s = Some (x, r)"
  define s0 where "s0 = (case s of [] \<Rightarrow> s | c # cs \<Rightarrow> if c = 0x2D then cs else s)"
  have l0: "length s0 \<le> length s" by (auto simp: s0_def split: list.splits)
  from a obtain i s1 f s2 e where "parseInt s0 = Some (i, s1)" "parseFrac s1 = Some (f, s2)"
      "parseExp s2 = Some (e, r)"
    by (auto simp: parseNumber_def s0_def split: list.splits if_splits option.splits prod.splits)
  then show ?thesis
    using l0 parseInt_consumes parseFrac_consumes parseExp_consumes
    by (meson le_trans less_le_trans not_le order.strict_trans2)
qed

lemma parseValue_consumes_step:
  assumes elems: "\<And>t vs q. length t < length s \<Longrightarrow> parseElements t = Some (vs, q) \<Longrightarrow> length q < length t"
    and membs: "\<And>t ms q. length t < length s \<Longrightarrow> parseMembers t = Some (ms, q) \<Longrightarrow> length q < length t"
    and pv: "parseValue s = Some (v, r)"
  shows "length r < length s"
proof -
  from pv obtain c cs where sk: "skipWs s = c # cs"
    by (cases "skipWs s") (auto simp: parseValue.simps[of s])
  have cs: "length cs < length s" using sk by (rule skipWs_Cons_length)
  have sk_le: "Suc (length cs) \<le> length s" using cs by simp
  consider (arr) "c = 0x5B" | (obj) "c \<noteq> 0x5B" "c = 0x7B" | (strg) "c \<noteq> 0x5B" "c \<noteq> 0x7B" "c = 0x22"
    | (other) "c \<noteq> 0x5B" "c \<noteq> 0x7B" "c \<noteq> 0x22" by blast
  then show ?thesis
  proof cases
    case arr
    with pv sk obtain d ds where sk2: "skipWs cs = d # ds"
      by (cases "skipWs cs") (auto simp: parseValue.simps[of s])
    have ds: "length ds < length cs" using sk2 by (rule skipWs_Cons_length)
    show ?thesis
    proof (cases "d = 0x5D")
      case True
      with pv sk sk2 arr have "r = ds" by (simp add: parseValue.simps[of s])
      with ds cs show ?thesis by simp
    next
      case False
      with pv sk sk2 arr cs obtain vs where "parseElements cs = Some (vs, r)"
        by (auto simp: parseValue.simps[of s] dest: map_apfst_Some)
      from elems[OF cs this] cs show ?thesis by simp
    qed
  next
    case obj
    with pv sk obtain d ds where sk2: "skipWs cs = d # ds"
      by (cases "skipWs cs") (auto simp: parseValue.simps[of s])
    have ds: "length ds < length cs" using sk2 by (rule skipWs_Cons_length)
    show ?thesis
    proof (cases "d = 0x7D")
      case True
      with pv sk sk2 obj have "r = ds" by (simp add: parseValue.simps[of s])
      with ds cs show ?thesis by simp
    next
      case False
      with pv sk sk2 obj cs obtain ms where "parseMembers cs = Some (ms, r)"
        by (auto simp: parseValue.simps[of s] dest: map_apfst_Some)
      from membs[OF cs this] cs show ?thesis by simp
    qed
  next
    case strg
    with pv sk obtain x where "parseString cs = Some (x, r)"
      by (auto simp: parseValue.simps[of s] dest: map_apfst_Some)
    from parseString_consumes[OF this] cs show ?thesis by simp
  next
    case other
    from pv sk other have
      "(r = drop 3 cs \<or> r = drop 4 cs) \<or> (\<exists>x. parseNumber (c # cs) = Some (x, r))"
      by (auto simp: parseValue.simps[of s] split: if_splits dest: map_apfst_Some)
    then show ?thesis
    proof
      assume "r = drop 3 cs \<or> r = drop 4 cs"
      with cs show ?thesis by auto
    next
      assume "\<exists>x. parseNumber (c # cs) = Some (x, r)"
      then obtain x where "parseNumber (c # cs) = Some (x, r)" ..
      from parseNumber_consumes[OF this] sk_le show ?thesis by simp
    qed
  qed
qed

lemma parseElements_consumes_step:
  assumes val: "\<And>v q. parseValue s = Some (v, q) \<Longrightarrow> length q < length s"
    and elems: "\<And>t vs q. length t < length s \<Longrightarrow> parseElements t = Some (vs, q) \<Longrightarrow> length q < length t"
    and pe: "parseElements s = Some (vs, r)"
  shows "length r < length s"
proof -
  from pe obtain v r0 where pv: "parseValue s = Some (v, r0)"
    by (cases "parseValue s") (auto simp: parseElements.simps[of s])
  have r0: "length r0 < length s" using pv by (rule val)
  from pe pv obtain c cs where sk: "skipWs r0 = c # cs"
    by (cases "skipWs r0") (auto simp: parseElements.simps[of s])
  have cs: "length cs < length r0" using sk by (rule skipWs_Cons_length)
  show ?thesis
  proof (cases "c = 0x5D")
    case True
    with pe pv sk have "r = cs" by (simp add: parseElements.simps[of s])
    with cs r0 show ?thesis by simp
  next
    case False
    with pe pv sk obtain ws where "parseElements cs = Some (ws, r)"
      by (auto simp: parseElements.simps[of s] split: if_splits dest: map_apfst_Some)
    from elems[OF _ this] cs r0 show ?thesis by simp
  qed
qed

lemma parseMembers_consumes_step:
  assumes val: "\<And>t v q. length t < length s \<Longrightarrow> parseValue t = Some (v, q) \<Longrightarrow> length q < length t"
    and membs: "\<And>t ms q. length t < length s \<Longrightarrow> parseMembers t = Some (ms, q) \<Longrightarrow> length q < length t"
    and pm: "parseMembers s = Some (ms, r)"
  shows "length r < length s"
proof -
  from pm obtain q ks where sk: "skipWs s = q # ks"
    by (cases "skipWs s") (auto simp: parseMembers.simps[of s])
  have ks: "length ks < length s" using sk by (rule skipWs_Cons_length)
  from pm sk have q: "q = 0x22" by (auto simp: parseMembers.simps[of s] split: if_splits)
  from pm sk q obtain k r1 where ps: "parseString ks = Some (k, r1)"
    by (cases "parseString ks") (auto simp: parseMembers.simps[of s])
  have r1: "length r1 < length ks" using ps by (rule parseString_consumes)
  from pm sk q ps obtain c vs where sk2: "skipWs r1 = c # vs"
    by (cases "skipWs r1") (auto simp: parseMembers.simps[of s])
  have vs: "length vs < length r1" using sk2 by (rule skipWs_Cons_length)
  from pm sk q ps sk2 have c: "c = 0x3A" by (auto simp: parseMembers.simps[of s] split: if_splits)
  have vs_s: "length vs < length s" using vs r1 ks by simp
  from pm sk q ps sk2 c vs_s obtain v r2 where pv: "parseValue vs = Some (v, r2)"
    by (cases "parseValue vs") (auto simp: parseMembers.simps[of s])
  have r2: "length r2 < length vs" using val[OF vs_s pv] .
  from pm sk q ps sk2 c vs_s pv obtain d ds where sk3: "skipWs r2 = d # ds"
    by (cases "skipWs r2") (auto simp: parseMembers.simps[of s])
  have ds: "length ds < length r2" using sk3 by (rule skipWs_Cons_length)
  show ?thesis
  proof (cases "d = 0x7D")
    case True
    with pm sk q ps sk2 c vs_s pv sk3 have "r = ds" by (simp add: parseMembers.simps[of s])
    with ds r2 vs_s show ?thesis by simp
  next
    case False
    with pm sk q ps sk2 c vs_s pv sk3 obtain ms' where "parseMembers ds = Some (ms', r)"
      by (auto simp: parseMembers.simps[of s] split: if_splits dest: map_apfst_Some)
    from membs[OF _ this] ds r2 vs_s show ?thesis by simp
  qed
qed

lemma parse_consumes_all:
  "(\<forall>v r. parseValue s = Some (v, r) \<longrightarrow> length r < length s) \<and>
   (\<forall>vs r. parseElements s = Some (vs, r) \<longrightarrow> length r < length s) \<and>
   (\<forall>ms r. parseMembers s = Some (ms, r) \<longrightarrow> length r < length s)"
proof (induction s rule: length_induct)
  case (1 s)
  have v: "\<And>t v q. length t < length s \<Longrightarrow> parseValue t = Some (v, q) \<Longrightarrow> length q < length t"
    and e: "\<And>t vs q. length t < length s \<Longrightarrow> parseElements t = Some (vs, q) \<Longrightarrow> length q < length t"
    and m: "\<And>t ms q. length t < length s \<Longrightarrow> parseMembers t = Some (ms, q) \<Longrightarrow> length q < length t"
    using 1 by blast+
  have vs: "\<And>v q. parseValue s = Some (v, q) \<Longrightarrow> length q < length s"
    by (rule parseValue_consumes_step[OF e m])
  have es: "\<And>vs q. parseElements s = Some (vs, q) \<Longrightarrow> length q < length s"
    by (rule parseElements_consumes_step[OF vs e])
  have ms: "\<And>ms q. parseMembers s = Some (ms, q) \<Longrightarrow> length q < length s"
    by (rule parseMembers_consumes_step[OF v m])
  from vs es ms show ?case by blast
qed

text \<open>A parsed value, element list or member list leaves a strictly shorter rest.\<close>

lemma parse_consumes: "parseValue s = Some (v, r) \<Longrightarrow> length r < length s"
  using parse_consumes_all[of s] by blast

text \<open>
  So the tests in \<open>parseElements\<close> and \<open>parseMembers\<close> never fail: the equations hold with
  the tests taken out.
\<close>

lemma parseElements_unguarded:
  "parseElements s =
     (case parseValue s of
        None \<Rightarrow> None
      | Some (v, r) \<Rightarrow>
          (case skipWs r of
             [] \<Rightarrow> None
           | c # cs \<Rightarrow>
               if c = 0x5D then Some ([v], cs)
               else if c = 0x2C then map_option (apfst ((#) v)) (parseElements cs)
               else None))"
proof (cases "parseValue s")
  case None
  then show ?thesis by (simp add: parseElements.simps[of s])
next
  case (Some a)
  obtain v r where a: "a = (v, r)" by (cases a)
  have r: "length r < length s" using Some a parse_consumes by simp
  show ?thesis
  proof (cases "skipWs r")
    case Nil
    with Some a show ?thesis by (simp add: parseElements.simps[of s])
  next
    case (Cons c cs)
    then have "length cs < length r" by (rule skipWs_Cons_length)
    with r have "length cs < length s" by simp
    with Some a Cons show ?thesis by (simp add: parseElements.simps[of s])
  qed
qed

lemma parseMembers_unguarded:
  "parseMembers s =
     (case skipWs s of
        [] \<Rightarrow> None
      | q # ks \<Rightarrow>
          if q \<noteq> 0x22 then None
          else
            (case parseString ks of
               None \<Rightarrow> None
             | Some (k, r) \<Rightarrow>
                 (case skipWs r of
                    [] \<Rightarrow> None
                  | c # vs \<Rightarrow>
                      if c = 0x3A then
                        (case parseValue vs of
                           None \<Rightarrow> None
                         | Some (v, r') \<Rightarrow>
                             (case skipWs r' of
                                [] \<Rightarrow> None
                              | d # ds \<Rightarrow>
                                  if d = 0x7D then Some ([(k, v)], ds)
                                  else if d = 0x2C
                                    then map_option (apfst ((#) (k, v))) (parseMembers ds)
                                  else None))
                      else None)))"
proof (cases "skipWs s")
  case Nil
  then show ?thesis by (simp add: parseMembers.simps[of s])
next
  case sk: (Cons q ks)
  have ks: "length ks < length s" using sk by (rule skipWs_Cons_length)
  show ?thesis
  proof (cases "parseString ks")
    case None
    with sk show ?thesis by (simp add: parseMembers.simps[of s])
  next
    case (Some a)
    obtain k r where a: "a = (k, r)" by (cases a)
    have r: "length r < length ks" using Some a parseString_consumes by simp
    show ?thesis
    proof (cases "skipWs r")
      case Nil
      with sk Some a show ?thesis by (simp add: parseMembers.simps[of s])
    next
      case sk2: (Cons c vs)
      have vs: "length vs < length s" using skipWs_Cons_length[OF sk2] r ks by simp
      show ?thesis
      proof (cases "parseValue vs")
        case None
        with sk Some a sk2 show ?thesis by (simp add: parseMembers.simps[of s])
      next
        case pv: (Some b)
        obtain v r' where b: "b = (v, r')" by (cases b)
        have r': "length r' < length vs" using pv b parse_consumes by simp
        show ?thesis
        proof (cases "skipWs r'")
          case Nil
          with sk Some a sk2 pv b vs show ?thesis by (simp add: parseMembers.simps[of s])
        next
          case sk3: (Cons d ds)
          have "length ds < length s" using skipWs_Cons_length[OF sk3] r' vs by simp
          with sk Some a sk2 pv b vs sk3 show ?thesis by (simp add: parseMembers.simps[of s])
        qed
      qed
    qed
  qed
qed

lemma parseValue_unguarded:
  "parseValue s =
     (case skipWs s of
        [] \<Rightarrow> None
      | c # cs \<Rightarrow>
          if c = 0x5B then
            (case skipWs cs of
               [] \<Rightarrow> None
             | d # ds \<Rightarrow>
                 if d = 0x5D then Some (JArray [], ds)
                 else map_option (apfst JArray) (parseElements cs))
          else if c = 0x7B then
            (case skipWs cs of
               [] \<Rightarrow> None
             | d # ds \<Rightarrow>
                 if d = 0x7D then Some (JObject [], ds)
                 else map_option (apfst JObject) (parseMembers cs))
          else if c = 0x22 then map_option (apfst JString) (parseString cs)
          else if take 4 (c # cs) = str ''true'' then Some (JBool True, drop 3 cs)
          else if take 5 (c # cs) = str ''false'' then Some (JBool False, drop 4 cs)
          else if take 4 (c # cs) = str ''null'' then Some (JNull, drop 3 cs)
          else map_option (apfst JNumber) (parseNumber (c # cs)))"
proof (cases "skipWs s")
  case Nil
  then show ?thesis by (simp add: parseValue.simps[of s])
next
  case (Cons c cs)
  then have "length cs < length s" by (rule skipWs_Cons_length)
  with Cons show ?thesis by (simp add: parseValue.simps[of s] split: list.splits)
qed

section \<open>Parsing the JSON text of a sequence of pairs\<close>

lemma hexDigit_hexChar: "d < 16 \<Longrightarrow> hexDigit (hexChar d) = Some d"
  by (auto simp: hexDigit_def hexChar_def)

lemma hex4_control: "c < 0x20 \<Longrightarrow> hex4 0x30 0x30 (hexChar (c div 16)) (hexChar (c mod 16)) = Some c"
proof -
  assume c: "c < 0x20"
  have z: "hexDigit 0x30 = Some 0" by (simp add: hexDigit_def)
  have h: "hexDigit (hexChar (c div 16)) = Some (c div 16)"
    using c by (intro hexDigit_hexChar) simp
  have l: "hexDigit (hexChar (c mod 16)) = Some (c mod 16)"
    by (intro hexDigit_hexChar) simp
  show ?thesis by (simp add: hex4_def z h l)
qed

lemma parseString_escaped:
  "parseString (concat (map escapeUnit s) @ 0x22 # rest) = Some (s, rest)"
proof (induction s)
  case Nil
  show ?case by simp
next
  case (Cons c cs)
  consider (q) "c = 0x22" | (b) "c = 0x5C" | (ctl) "c < 0x20" | (plain) "c \<noteq> 0x22" "c \<noteq> 0x5C" "\<not> c < 0x20"
    by blast
  then show ?case
  proof cases
    case q
    then show ?thesis using Cons by (simp add: escapeUnit_def unescape_def)
  next
    case b
    then show ?thesis using Cons by (simp add: escapeUnit_def unescape_def)
  next
    case ctl
    then have e: "escapeUnit c = [0x5C, 0x75, 0x30, 0x30, hexChar (c div 16), hexChar (c mod 16)]"
      by (simp add: escapeUnit_def)
    show ?thesis using Cons hex4_control[OF ctl] by (simp add: e)
  next
    case plain
    then show ?thesis using Cons by (simp add: escapeUnit_def)
  qed
qed

lemma skipWs_nonws: "\<not> isJsonWs c \<Longrightarrow> skipWs (c # cs) = c # cs"
  by (simp add: skipWs_def)

lemma parseValue_quote: "parseValue (quote s @ rest) = Some (JString s, rest)"
proof -
  have "skipWs (quote s @ rest) = 0x22 # concat (map escapeUnit s) @ 0x22 # rest"
    by (simp add: quote_def skipWs_def isJsonWs_def)
  then show ?thesis
    by (simp add: parseValue_unguarded parseString_escaped)
qed


lemma parseString_key_arabic:
  "parseString (str ''arabic\":'' @ rest) = Some (str ''arabic'', 0x3A # rest)"
  by (simp add: str_def)

lemma parseString_key_english:
  "parseString (str ''english\":'' @ rest) = Some (str ''english'', 0x3A # rest)"
  by (simp add: str_def)

lemma quote_Cons: "quote s @ rest = 0x22 # concat (map escapeUnit s) @ 0x22 # rest"
  by (simp add: quote_def)

lemma parseMembers_english:
  "parseMembers (str ''\"english\":'' @ quote e @ 0x7D # rest)
     = Some ([(str ''english'', JString e)], rest)"
proof -
  have s: "str ''\"english\":'' @ quote e @ 0x7D # rest
             = 0x22 # str ''english\":'' @ quote e @ 0x7D # rest"
    by (simp add: str_def)
  have k: "parseString (str ''english\":'' @ quote e @ 0x7D # rest)
             = Some (str ''english'', 0x3A # quote e @ 0x7D # rest)"
    by (rule parseString_key_english)
  have v: "parseValue (quote e @ 0x7D # rest) = Some (JString e, 0x7D # rest)"
    by (rule parseValue_quote)
  show ?thesis
    unfolding s
    by (subst parseMembers_unguarded) (simp add: skipWs_def isJsonWs_def k v)
qed

lemma parseMembers_pair:
  "parseMembers (str ''\"arabic\":'' @ quote a @ str '',\"english\":'' @ quote e @ 0x7D # rest)
     = Some ([(str ''arabic'', JString a), (str ''english'', JString e)], rest)"
proof -
  have s: "str ''\"arabic\":'' @ quote a @ str '',\"english\":'' @ quote e @ 0x7D # rest
             = 0x22 # str ''arabic\":'' @ quote a @ 0x2C # str ''\"english\":'' @ quote e @ 0x7D # rest"
    by (simp add: str_def)
  have k: "parseString (str ''arabic\":'' @ quote a @ 0x2C # str ''\"english\":'' @ quote e @ 0x7D # rest)
             = Some (str ''arabic'', 0x3A # quote a @ 0x2C # str ''\"english\":'' @ quote e @ 0x7D # rest)"
    by (rule parseString_key_arabic)
  have v: "parseValue (quote a @ 0x2C # str ''\"english\":'' @ quote e @ 0x7D # rest)
             = Some (JString a, 0x2C # str ''\"english\":'' @ quote e @ 0x7D # rest)"
    by (rule parseValue_quote)
  show ?thesis
    unfolding s
    by (subst parseMembers_unguarded) (simp add: skipWs_def isJsonWs_def k v parseMembers_english)
qed

lemma parseValue_stringifyPair:
  "parseValue (stringifyPair p @ rest) = Some (pairJson p, rest)"
proof -
  have s: "stringifyPair p @ rest
             = 0x7B # str ''\"arabic\":'' @ quote (arabic p) @ str '',\"english\":'' @
               quote (english p) @ 0x7D # rest"
    by (simp add: stringifyPair_def str_def)
  have w: "skipWs (str ''\"arabic\":'' @ quote (arabic p) @ str '',\"english\":'' @
               quote (english p) @ 0x7D # rest)
           = 0x22 # str ''arabic\":'' @ quote (arabic p) @ str '',\"english\":'' @
               quote (english p) @ 0x7D # rest"
    by (simp add: str_def skipWs_def isJsonWs_def)
  show ?thesis
    unfolding s
    by (subst parseValue_unguarded) (simp add: skipWs_def isJsonWs_def w[unfolded skipWs_def] parseMembers_pair pairJson_def)
qed

lemma parseElements_stringifyPairs:
  "ps \<noteq> [] \<Longrightarrow> parseElements (stringifyPairs ps @ 0x5D # rest) = Some (map pairJson ps, rest)"
proof (induction ps rule: stringifyPairs.induct)
  case 1
  then show ?case by simp
next
  case (2 p)
  show ?case
    by (subst parseElements_unguarded)
      (simp add: parseValue_stringifyPair skipWs_def isJsonWs_def)
next
  case (3 p q ps)
  have v: "parseValue (stringifyPairs (p # q # ps) @ 0x5D # rest)
             = Some (pairJson p, 0x2C # stringifyPairs (q # ps) @ 0x5D # rest)"
    using parseValue_stringifyPair[of p "0x2C # stringifyPairs (q # ps) @ 0x5D # rest"] by simp
  show ?case
    by (subst parseElements_unguarded) (simp add: v skipWs_def isJsonWs_def 3 del: stringifyPairs.simps)
qed

lemma stringifyPairs_starts_with_brace:
  "ps \<noteq> [] \<Longrightarrow> \<exists>t. stringifyPairs ps = 0x7B # t"
  by (induction ps rule: stringifyPairs.induct) (simp_all add: stringifyPair_def str_def)

text \<open>The JSON text of a sequence of pairs parses to the array of the pairs' objects.\<close>

lemma JSON_parse_stringify: "JSON_parse (stringify ps) = Some (JArray (map pairJson ps))"
proof (cases "ps = []")
  case True
  have "parseValue [0x5B, 0x5D] = Some (JArray [], [])"
    by (subst parseValue_unguarded) (simp add: skipWs_def isJsonWs_def)
  with True show ?thesis by (simp add: JSON_parse_def stringify_def skipWs_def)
next
  case False
  then obtain t where t: "stringifyPairs ps = 0x7B # t"
    using stringifyPairs_starts_with_brace by blast
  have e: "parseElements (stringifyPairs ps @ [0x5D]) = Some (map pairJson ps, [])"
    using parseElements_stringifyPairs[OF False, of "[]"] by simp
  have sk: "skipWs (stringifyPairs ps @ [0x5D]) = 0x7B # t @ [0x5D]"
    by (simp add: t skipWs_def isJsonWs_def)
  have sk0: "skipWs (0x5B # stringifyPairs ps @ [0x5D]) = 0x5B # stringifyPairs ps @ [0x5D]"
    by (simp add: skipWs_nonws isJsonWs_def)
  have "parseValue (0x5B # stringifyPairs ps @ [0x5D]) = Some (JArray (map pairJson ps), [])"
    by (subst parseValue_unguarded) (simp add: sk0 sk e)
  then show ?thesis by (simp add: JSON_parse_def stringify_def skipWs_def)
qed

lemma pairOf_pairJson: "pairOf (pairJson p) = Some p"
  by (simp add: pairOf_def pairJson_def property_def str_def)

lemma asTranslationPairs_pairJson: "asTranslationPairs (JArray (map pairJson ps)) = Some ps"
  by (induction ps) (simp_all add: asTranslationPairs_def pairOf_pairJson)

section \<open>The translator adapter\<close>

lemma those_map_Some:
  "those (map f xs) = Some ys \<Longrightarrow> length ys = length xs \<and> (\<forall>i<length xs. f (xs ! i) = Some (ys ! i))"
proof (induction xs arbitrary: ys)
  case Nil
  then show ?case by simp
next
  case (Cons x xs)
  then obtain y ys' where y: "f x = Some y" "those (map f xs) = Some ys'" "ys = y # ys'"
    by (auto split: option.splits)
  with Cons.IH[of ys'] show ?case by (auto simp: nth_Cons split: nat.splits)
qed

lemma translate_resolves:
  "generateContent text = Inr (Some response) \<Longrightarrow> JSON_parse response = Some v \<Longrightarrow>
   fst (translateAndAlignText generateContent text) = Inr v"
  by (simp add: translateAndAlignText_def)

lemma translate_rejects_service:
  "generateContent text = Inl e \<Longrightarrow>
   fst (translateAndAlignText generateContent text) = Inl translationFailure"
  by (simp add: translateAndAlignText_def)

lemma translate_rejects_parse:
  "generateContent text = Inr (Some response) \<Longrightarrow> JSON_parse response = None \<Longrightarrow>
   fst (translateAndAlignText generateContent text) = Inl translationFailure"
  by (simp add: translateAndAlignText_def)

lemma JSON_parse_undefined: "JSON_parse (str ''undefined'') = None"
  by code_simp

lemma translate_rejects_undefined:
  "generateContent text = Inr None \<Longrightarrow>
   fst (translateAndAlignText generateContent text) = Inl translationFailure"
  by (simp add: translateAndAlignText_def JSON_parse_undefined)

text \<open>
  Claim C2. For every service response text that is a valid JSON array of objects each with
  string properties \<open>arabic\<close> and \<open>english\<close>, \<open>translateAndAlignText\<close> resolves with that
  array: read as pairs it is as long as the array of the response, and its i-th pair is the
  i-th object. In particular, for every sequence of pairs, the response that is the JSON
  text of the sequence resolves to a value that reads as that very sequence.
\<close>

theorem translate_resolves_in_order:
  "(generateContent text = Inr (Some response) \<and>
    JSON_parse response = Some (JArray items) \<and>
    asTranslationPairs (JArray items) = Some pairs \<longrightarrow>
      fst (translateAndAlignText generateContent text) = Inr (JArray items) \<and>
      length pairs = length items \<and>
      (\<forall>i<length items. pairOf (items ! i) = Some (pairs ! i))) \<and>
   (generateContent text = Inr (Some (stringify ps)) \<longrightarrow>
      fst (translateAndAlignText generateContent text) = Inr (JArray (map pairJson ps)) \<and>
      asTranslationPairs (JArray (map pairJson ps)) = Some ps)"
proof -
  have 1: "fst (translateAndAlignText generateContent text) = Inr (JArray items) \<and>
      length pairs = length items \<and>
      (\<forall>i<length items. pairOf (items ! i) = Some (pairs ! i))"
    if "generateContent text = Inr (Some response)" "JSON_parse response = Some (JArray items)"
      "asTranslationPairs (JArray items) = Some pairs"
    using that those_map_Some[of pairOf items pairs]
    by (simp add: translate_resolves asTranslationPairs_def)
  have 2: "fst (translateAndAlignText generateContent text) = Inr (JArray (map pairJson ps))"
    if "generateContent text = Inr (Some (stringify ps))"
    using that JSON_parse_stringify[of ps] by (rule translate_resolves)
  show ?thesis using 1 2 asTranslationPairs_pairJson[of ps] by blast
qed

theorem translate_resolves_in_order_witness:
  "fst (translateAndAlignText (serviceResolving exampleResponse) [0x623, 0x0A, 0x0A, 0x628]) =
     Inr (JArray
       [JObject [(str ''arabic'', JString [0x623]), (str ''english'', JString (str ''a title''))],
        JObject [(str ''english'', JString (str ''row'' @ [0x0A] @ str ''one'')),
                 (str ''arabic'', JString [0x628])]]) \<and>
   pairOf (JObject [(str ''arabic'', JString [0x623]), (str ''english'', JString (str ''a title''))])
     = Some \<lparr>arabic = [0x623], english = str ''a title''\<rparr> \<and>
   pairOf (JObject [(str ''english'', JString (str ''row'' @ [0x0A] @ str ''one'')),
                    (str ''arabic'', JString [0x628])])
     = Some \<lparr>arabic = [0x628], english = str ''row'' @ [0x0A] @ str ''one''\<rparr> \<and>
   fst (translateAndAlignText (serviceResolving (stringify [exampleTitle, exampleRow])) [0x623]) =
     Inr (JArray [pairJson exampleTitle, pairJson exampleRow]) \<and>
   asTranslationPairs (JArray [pairJson exampleTitle, pairJson exampleRow]) =
     Some [exampleTitle, exampleRow]"
proof -
  let ?items = "[JObject [(str ''arabic'', JString [0x623]), (str ''english'', JString (str ''a title''))],
        JObject [(str ''english'', JString (str ''row'' @ [0x0A] @ str ''one'')),
                 (str ''arabic'', JString [0x628])]]"
  let ?pairs = "[\<lparr>arabic = [0x623], english = str ''a title''\<rparr>,
                 \<lparr>arabic = [0x628], english = str ''row'' @ [0x0A] @ str ''one''\<rparr>]"
  have s: "serviceResolving exampleResponse [0x623, 0x0A, 0x0A, 0x628] = Inr (Some exampleResponse)"
    by (simp add: serviceResolving_def)
  have p: "JSON_parse exampleResponse = Some (JArray ?items)"
    by code_simp
  have a: "asTranslationPairs (JArray ?items) = Some ?pairs"
    by (simp add: asTranslationPairs_def pairOf_def property_def str_def)
  have s': "serviceResolving (stringify [exampleTitle, exampleRow]) [0x623]
              = Inr (Some (stringify [exampleTitle, exampleRow]))"
    by (simp add: serviceResolving_def)
  from translate_resolves_in_order[of "serviceResolving exampleResponse"
      "[0x623, 0x0A, 0x0A, 0x628]" exampleResponse ?items ?pairs] s p a
  have 1: "fst (translateAndAlignText (serviceResolving exampleResponse) [0x623, 0x0A, 0x0A, 0x628])
             = Inr (JArray ?items)"
    and 2: "\<forall>i<length ?items. pairOf (?items ! i) = Some (?pairs ! i)"
    by blast+
  from 2[rule_format, of 0] 2[rule_format, of 1]
  have 3: "pairOf (?items ! 0) = Some (?pairs ! 0) \<and> pairOf (?items ! 1) = Some (?pairs ! 1)"
    by simp
  from translate_resolves_in_order[of "serviceResolving (stringify [exampleTitle, exampleRow])"
      "[0x623]" _ _ _ "[exampleTitle, exampleRow]"] s'
  have 4: "fst (translateAndAlignText (serviceResolving (stringify [exampleTitle, exampleRow])) [0x623]) =
     Inr (JArray (map pairJson [exampleTitle, exampleRow])) \<and>
     asTranslationPairs (JArray (map pairJson [exampleTitle, exampleRow])) =
       Some [exampleTitle, exampleRow]"
    by blast
  show ?thesis using 1 3 4 by simp
qed

text \<open>
  Claim C3 as stated fails for a response that is JSON but not of the schema: nothing checks
  the parsed value. The response text \<open>[1]\<close> is resolved as the array holding the number 1.
\<close>

theorem translate_resolves_unvalidated:
  "fst (translateAndAlignText (serviceResolving (str ''[1]'')) [0x623]) =
     Inr (JArray [JNumber (str ''1'')]) \<and>
   \<not> matchesSchema (JArray [JNumber (str ''1'')])"
proof -
  have p: "JSON_parse (str ''[1]'') = Some (JArray [JNumber (str ''1'')])" by code_simp
  show ?thesis
    by (simp add: translateAndAlignText_def serviceResolving_def p matchesSchema_def
        asTranslationPairs_def pairOf_def)
qed

lemma translate_rejection_is_translationFailure:
  "fst (translateAndAlignText generateContent text) = Inl err \<Longrightarrow> err = translationFailure"
  by (auto simp: translateAndAlignText_def Let_def split: sum.splits option.splits)

text \<open>
  Claim C3, amended. Whenever the service call fails, or the response has no text or a text
  that is not JSON, \<open>translateAndAlignText\<close> rejects, and it never rejects with anything
  but the one translation-failure error; a response text that is JSON resolves with the
  parsed value as it is, whether or not that value matches the schema.
\<close>

theorem translate_rejects_iff_unparseable:
  "(generateContent text = Inl e \<longrightarrow>
      fst (translateAndAlignText generateContent text) = Inl translationFailure) \<and>
   (generateContent text = Inr None \<longrightarrow>
      fst (translateAndAlignText generateContent text) = Inl translationFailure) \<and>
   (generateContent text = Inr (Some response) \<and> JSON_parse response = None \<longrightarrow>
      fst (translateAndAlignText generateContent text) = Inl translationFailure) \<and>
   (generateContent text = Inr (Some response) \<and> JSON_parse response = Some v \<longrightarrow>
      fst (translateAndAlignText generateContent text) = Inr v) \<and>
   (fst (translateAndAlignText generateContent text) = Inl err \<longrightarrow> err = translationFailure)"
  using translate_rejection_is_translationFailure[of generateContent "text" err]
  by (simp add: translate_rejects_service translate_rejects_undefined translate_rejects_parse
      translate_resolves)

theorem translate_rejects_iff_unparseable_witness:
  "fst (translateAndAlignText (serviceResolving (str ''[{\"arabic\": \"x\",]'')) [0x623]) =
     Inl translationFailure \<and>
   fst (translateAndAlignText (serviceResolving (str ''{\"error\": 429}'')) [0x623]) =
     Inr (JObject [(str ''error'', JNumber (str ''429''))])"
proof -
  have p1: "JSON_parse (str ''[{\"arabic\": \"x\",]'') = None" by code_simp
  have p2: "JSON_parse (str ''{\"error\": 429}'') = Some (JObject [(str ''error'', JNumber (str ''429''))])"
    by code_simp
  have s1: "serviceResolving (str ''[{\"arabic\": \"x\",]'') [0x623] = Inr (Some (str ''[{\"arabic\": \"x\",]''))"
    by (simp add: serviceResolving_def)
  have s2: "serviceResolving (str ''{\"error\": 429}'') [0x623] = Inr (Some (str ''{\"error\": 429}''))"
    by (simp add: serviceResolving_def)
  have 1: "fst (translateAndAlignText (serviceResolving (str ''[{\"arabic\": \"x\",]'')) [0x623]) =
     Inl translationFailure"
    using translate_rejects_iff_unparseable[of "serviceResolving (str ''[{\"arabic\": \"x\",]'')"
        "[0x623]" _ "str ''[{\"arabic\": \"x\",]''"] s1 p1 by blast
  have 2: "fst (translateAndAlignText (serviceResolving (str ''{\"error\": 429}'')) [0x623]) =
     Inr (JObject [(str ''error'', JNumber (str ''429''))])"
    using translate_rejects_iff_unparseable[of "serviceResolving (str ''{\"error\": 429}'')"
        "[0x623]" _ "str ''{\"error\": 429}''" "JObject [(str ''error'', JNumber (str ''429''))]"] s2 p2
    by blast
  show ?thesis using 1 2 by blast
qed

section \<open>The exporter\<close>








lemma generateAndDownload_rejected:
  "toBlob lib d = Inl e \<Longrightarrow>
   generateAndDownload lib world d t =
     world\<lparr>console := console world @ [Logged (str ''Error generating Word document:'') (Some e)]\<rparr>"
  by (simp add: generateAndDownload_def console_error_def)



lemma exportToWord_throws:
  "assemblyThrows lib = Some e \<Longrightarrow> exportToWord lib world (titlePair # rest) = (Some e, world)"
  by (simp add: exportToWord_def Let_def)

lemma exportToWord_lines_throws:
  "assemblyThrows lib = Some e \<Longrightarrow>
   exportToWord_lines lib world (titlePair # rest) = (Some e, world)"
  by (simp add: exportToWord_lines_def Let_def)

lemma exportToWord_rejected:
  "assemblyThrows lib = None \<Longrightarrow> toBlob lib (doc titlePair rest) = Inl e \<Longrightarrow>
   exportToWord lib world (titlePair # rest) =
     (None, world\<lparr>console := console world @
        [Logged (str ''Error generating Word document:'') (Some e)]\<rparr>)"
  by (cases rest) (simp_all add: exportToWord_def Let_def generateAndDownload_rejected)

lemma exportToWord_lines_rejected:
  "assemblyThrows lib = None \<Longrightarrow> toBlob lib (doc_lines titlePair rest) = Inl e \<Longrightarrow>
   exportToWord_lines lib world (titlePair # rest) =
     (None, world\<lparr>console := console world @
        [Logged (str ''Error generating Word document:'') (Some e)]\<rparr>)"
  by (cases rest) (simp_all add: exportToWord_lines_def Let_def generateAndDownload_rejected)


text \<open>
  The exporter of \<^verbatim>\<open>services/pdfService.ts\<close>, an earlier state of the same module, has no
  \<^verbatim>\<open>createParagraphsFromText\<close>: each cell holds one paragraph with the whole text.
\<close>

lemma tableRows_one_paragraph_per_cell:
  assumes "i < length bodyPairs"
  shows "map (\<lambda>c. map paragraphText (cell_children c)) (row_children (tableRows bodyPairs ! i))
           = [[arabic (bodyPairs ! i)], [english (bodyPairs ! i)]]"
  using assms by (simp add: tableRows_def paragraphText_def)







section \<open>The presentation layer\<close>

text \<open>
  Claim C4 as stated fails where it says that every such error is shown to the user: when
  the packer rejects, the handler inside \<open>exportToWord\<close> writes the error to the console,
  nothing reaches \<open>handleExport\<close>, and the error shown stays cleared.
\<close>

theorem handleExport_packer_error_not_shown:
  "handleExport (exportToWord (libraryPackerRejecting (Error (str ''out of memory''))))
     (stateWith [0x623] [exampleTitle, exampleRow] None, emptyWorld) =
     (\<lparr>arabicText = [0x623], translationPairs = [exampleTitle, exampleRow], isLoading = False,
       error = None, isExporting = True\<rparr>,
      \<lparr>console = [Logged (str ''Error generating Word document:'')
                    (Some (Error (str ''out of memory'')))],
       downloads = []\<rparr>)"
  by (simp add: handleExport_def Let_def exportToWord_def generateAndDownload_def
      console_error_def libraryPackerRejecting_def stateWith_def emptyWorld_def)

text \<open>
  Claim C4, amended. For every state with at least one pair, an error during export is
  caught and no download is started: what a constructor throws while the document is
  assembled leaves \<open>exportToWord\<close> and is caught by \<open>handleExport\<close>, which shows its message
  to the user and leaves console and downloads as they were; a rejection of the packer is
  caught inside \<open>exportToWord\<close>, which writes it to the console as a generation error, and
  \<open>handleExport\<close> shows no error. Both states of the exporter agree.
\<close>

theorem handleExport_errors_caught:
  assumes "translationPairs st = titlePair # rest"
  shows "(assemblyThrows lib = Some e \<longrightarrow>
            handleExport (exportToWord lib) (st, world) =
              (st\<lparr>isExporting := True,
                  error := Some (messageOr e (str ''An unknown error occurred during export.''))\<rparr>,
               world) \<and>
            handleExport (exportToWord_lines lib) (st, world) =
              (st\<lparr>isExporting := True,
                  error := Some (messageOr e (str ''An unknown error occurred during export.''))\<rparr>,
               world)) \<and>
         (assemblyThrows lib = None \<and> toBlob lib (doc titlePair rest) = Inl e \<longrightarrow>
            handleExport (exportToWord lib) (st, world) =
              (st\<lparr>isExporting := True, error := None\<rparr>,
               world\<lparr>console := console world @
                  [Logged (str ''Error generating Word document:'') (Some e)]\<rparr>)) \<and>
         (assemblyThrows lib = None \<and> toBlob lib (doc_lines titlePair rest) = Inl e \<longrightarrow>
            handleExport (exportToWord_lines lib) (st, world) =
              (st\<lparr>isExporting := True, error := None\<rparr>,
               world\<lparr>console := console world @
                  [Logged (str ''Error generating Word document:'') (Some e)]\<rparr>))"
  using assms
  by (simp add: handleExport_def Let_def exportToWord_throws exportToWord_lines_throws
      exportToWord_rejected exportToWord_lines_rejected)

theorem handleExport_errors_caught_witness:
  "handleExport (exportToWord (libraryAssemblyThrowing (Error (str ''Invalid array length''))))
     (stateWith [0x623] [exampleTitle, exampleRow] None, emptyWorld) =
     (\<lparr>arabicText = [0x623], translationPairs = [exampleTitle, exampleRow], isLoading = False,
       error = Some (str ''Invalid array length''), isExporting = True\<rparr>,
      \<lparr>console = [], downloads = []\<rparr>) \<and>
   handleExport (exportToWord_lines (libraryPackerRejecting NonError))
     (stateWith [0x623] [exampleTitle, exampleRow] None, emptyWorld) =
     (\<lparr>arabicText = [0x623], translationPairs = [exampleTitle, exampleRow], isLoading = False,
       error = None, isExporting = True\<rparr>,
      \<lparr>console = [Logged (str ''Error generating Word document:'') (Some NonError)],
       downloads = []\<rparr>)"
proof -
  let ?st = "stateWith [0x623] [exampleTitle, exampleRow] None"
  have t: "translationPairs ?st = exampleTitle # [exampleRow]" by (simp add: stateWith_def)
  have a: "assemblyThrows (libraryAssemblyThrowing (Error (str ''Invalid array length'')))
             = Some (Error (str ''Invalid array length''))"
    by (simp add: libraryAssemblyThrowing_def)
  have r: "assemblyThrows (libraryPackerRejecting NonError) = None \<and>
           toBlob (libraryPackerRejecting NonError) (doc_lines exampleTitle [exampleRow]) = Inl NonError"
    by (simp add: libraryPackerRejecting_def)
  from handleExport_errors_caught[OF t,
      where lib = "libraryAssemblyThrowing (Error (str ''Invalid array length''))"
        and e = "Error (str ''Invalid array length'')" and world = emptyWorld] a
  have 1: "handleExport (exportToWord (libraryAssemblyThrowing (Error (str ''Invalid array length''))))
      (?st, emptyWorld) =
      (?st\<lparr>isExporting := True,
            error := Some (messageOr (Error (str ''Invalid array length''))
                             (str ''An unknown error occurred during export.''))\<rparr>, emptyWorld)"
    by blast
  from handleExport_errors_caught[OF t, where lib = "libraryPackerRejecting NonError"
        and e = NonError and world = emptyWorld] r
  have 2: "handleExport (exportToWord_lines (libraryPackerRejecting NonError)) (?st, emptyWorld) =
      (?st\<lparr>isExporting := True, error := None\<rparr>,
       emptyWorld\<lparr>console := console emptyWorld @
          [Logged (str ''Error generating Word document:'') (Some NonError)]\<rparr>)"
    by blast
  show ?thesis using 1 2 by (simp add: stateWith_def emptyWorld_def messageOr_def)
qed

text \<open>
  Claim C5. The translate action, when the trimmed input is empty, calls the adapter not at
  all and reports an input error; when the trimmed input is not empty, it clears the prior
  result sequence and the prior error before it awaits the adapter, which it calls once
  with the input; and when the adapter rejects, it stores the error's message (a fixed
  text if the rejection is not an error object) and leaves the input text as it was.
\<close>

theorem handleTranslate_guard_clear_fail:
  "(trim (arabicText st) = [] \<longrightarrow>
      handleTranslate adapter st =
        (st\<lparr>error := Some (str ''Please enter some Arabic text to translate.'')\<rparr>, [])) \<and>
   (trim (arabicText st) \<noteq> [] \<longrightarrow>
      handleTranslate_begin st =
        (st\<lparr>isLoading := True, error := None, translationPairs := []\<rparr>, Some (arabicText st)) \<and>
      snd (handleTranslate adapter st) = [arabicText st] \<and>
      (adapter (arabicText st) = Inl err \<longrightarrow>
         fst (handleTranslate adapter st) =
           st\<lparr>isLoading := False,
              error := Some (messageOr err (str ''An unknown error occurred.'')),
              translationPairs := []\<rparr> \<and>
         arabicText (fst (handleTranslate adapter st)) = arabicText st))"
  by (simp add: handleTranslate_def handleTranslate_begin_def handleTranslate_settle_def)

theorem handleTranslate_guard_clear_fail_witness:
  "handleTranslate (adapterRejecting translationFailure)
     (stateWith [0x20, 0x0A] [exampleTitle] None) =
     (\<lparr>arabicText = [0x20, 0x0A], translationPairs = [exampleTitle], isLoading = False,
       error = Some (str ''Please enter some Arabic text to translate.''), isExporting = False\<rparr>, []) \<and>
   handleTranslate_begin (stateWith [0x623] [exampleTitle] (Some (str ''old''))) =
     (\<lparr>arabicText = [0x623], translationPairs = [], isLoading = True, error = None,
       isExporting = False\<rparr>, Some [0x623]) \<and>
   handleTranslate (adapterRejecting translationFailure)
     (stateWith [0x623] [exampleTitle] (Some (str ''old''))) =
     (\<lparr>arabicText = [0x623], translationPairs = [], isLoading = False,
       error = Some (str ''Failed to translate and align text. The model may have returned an invalid response.''),
       isExporting = False\<rparr>, [[0x623]])"
proof -
  let ?blank = "stateWith [0x20, 0x0A] [exampleTitle] None"
  let ?st = "stateWith [0x623] [exampleTitle] (Some (str ''old''))"
  have b: "trim (arabicText ?blank) = []"
    by (simp add: stateWith_def trim_def isWhiteSpace_def)
  have n: "trim (arabicText ?st) \<noteq> []"
    by (simp add: stateWith_def trim_def isWhiteSpace_def)
  have r: "adapterRejecting translationFailure (arabicText ?st) = Inl translationFailure"
    by (simp add: adapterRejecting_def)
  from handleTranslate_guard_clear_fail[of ?blank "adapterRejecting translationFailure"] b
  have 1: "handleTranslate (adapterRejecting translationFailure) ?blank =
        (?blank\<lparr>error := Some (str ''Please enter some Arabic text to translate.'')\<rparr>, [])"
    by blast
  from handleTranslate_guard_clear_fail[of ?st "adapterRejecting translationFailure" translationFailure] n r
  have 2: "handleTranslate_begin ?st =
        (?st\<lparr>isLoading := True, error := None, translationPairs := []\<rparr>, Some (arabicText ?st))"
    and 3: "snd (handleTranslate (adapterRejecting translationFailure) ?st) = [arabicText ?st]"
    and 4: "fst (handleTranslate (adapterRejecting translationFailure) ?st) =
           ?st\<lparr>isLoading := False,
              error := Some (messageOr translationFailure (str ''An unknown error occurred.'')),
              translationPairs := []\<rparr>"
    by blast+
  from 3 4 have 5: "handleTranslate (adapterRejecting translationFailure) ?st =
     (?st\<lparr>isLoading := False,
              error := Some (messageOr translationFailure (str ''An unknown error occurred.'')),
              translationPairs := []\<rparr>, [arabicText ?st])"
    by (simp add: prod_eq_iff)
  show ?thesis using 1 2 5 by (simp add: stateWith_def messageOr_def translationFailure_def)
qed

section \<open>The store\<close>

lemma readPair_append: "a < length h \<Longrightarrow> readPair (h @ k) a = readPair h a"
  by (simp add: readPair_def nth_append)

lemma readArray_append: "a < length h \<Longrightarrow> readArray (h @ k) a = readArray h a"
  by (simp add: readArray_def nth_append)

lemma readPair_Some_less: "readPair h a = Some p \<Longrightarrow> a < length h"
  by (simp add: readPair_def split: if_splits)

lemma those_Some_all: "those (map f xs) = Some ys \<Longrightarrow> \<forall>x\<in>set xs. f x \<noteq> None"
  by (induction xs arbitrary: ys) (auto split: option.splits)

lemma those_Some_Nil: "those (map f xs) = Some ys \<Longrightarrow> (ys = []) = (xs = [])"
  by (cases xs) (auto split: option.splits)

text \<open>An array holds the same pairs after new objects have been added to the store.\<close>

lemma pairsAt_append:
  assumes "pairsAt h a = Some pairs"
  shows "pairsAt (h @ k) a = Some pairs"
proof -
  from assms obtain refs where ra: "readArray h a = Some refs"
    and th: "those (map (readPair h) refs) = Some pairs"
    by (auto simp: pairsAt_def split: option.splits)
  from ra have a: "a < length h" by (simp add: readArray_def split: if_splits)
  have "\<forall>r\<in>set refs. r < length h"
    using those_Some_all[OF th] readPair_Some_less by fastforce
  then have eq: "map (readPair (h @ k)) refs = map (readPair h) refs"
    by (simp add: readPair_append)
  have ra': "readArray (h @ k) a = Some refs" using ra a by (simp add: readArray_append)
  show ?thesis by (simp only: pairsAt_def ra' eq th option.case)
qed

lemma exportToWord_store_frame:
  assumes "pairsAt h data = Some pairs"
  shows "\<exists>h'. exportToWord_store export world h data = Some (export world pairs, h') \<and>
           take (length h) h' = h \<and> pairsAt h' data = Some pairs \<and>
           (pairs = [] \<longrightarrow> h' = h) \<and>
           (pairs \<noteq> [] \<longrightarrow> (\<exists>refs. readArray h data = Some refs \<and> h' = h @ [ArrayObj (tl refs)]))"
proof -
  from assms obtain refs where ra: "readArray h data = Some refs"
    and th: "those (map (readPair h) refs) = Some pairs"
    by (auto simp: pairsAt_def split: option.splits)
  have e: "(pairs = []) = (refs = [])" using th by (rule those_Some_Nil)
  show ?thesis
  proof (cases "refs = []")
    case True
    with ra th e assms show ?thesis by (simp add: exportToWord_store_def)
  next
    case False
    have t: "(if 1 < length refs then tl refs else []) = tl refs"
      using False by (cases refs) (auto simp: Suc_lessI)
    have x: "exportToWord_store export world h data
               = Some (export world pairs, h @ [ArrayObj (tl refs)])"
      using ra th False t by (simp add: exportToWord_store_def alloc_def)
    show ?thesis
      using x ra e False pairsAt_append[OF assms, of "[ArrayObj (tl refs)]"] by simp
  qed
qed

lemma those_readPair_fresh:
  "those (map (readPair (h @ map PairObj pairs @ k)) [length h..<length h + length pairs])
     = Some pairs"
proof (induction pairs arbitrary: h)
  case Nil
  show ?case by simp
next
  case (Cons p ps)
  have u: "[length h..<length h + length (p # ps)]
             = length h # [Suc (length h)..<Suc (length h) + length ps]"
    using upt_conv_Cons[of "length h" "length h + Suc (length ps)"] by simp
  have r: "readPair (h @ map PairObj (p # ps) @ k) (length h) = Some p"
    by (simp add: readPair_def nth_append)
  have "those (map (readPair ((h @ [PairObj p]) @ map PairObj ps @ k))
          [length (h @ [PairObj p])..<length (h @ [PairObj p]) + length ps]) = Some ps"
    by (rule Cons.IH)
  then have ih: "those (map (readPair (h @ map PairObj (p # ps) @ k))
          [Suc (length h)..<Suc (length h) + length ps]) = Some ps"
    by simp
  show ?case unfolding u using r ih by simp
qed

lemma pairsAt_allocArray:
  "allocArray pairs h = (a, h') \<Longrightarrow> pairsAt h' a = Some pairs"
  using those_readPair_fresh[of h pairs "[ArrayObj [length h..<length h + length pairs]]"]
  by (auto simp: allocArray_def alloc_def pairsAt_def readArray_def nth_append)

lemma handleTranslate_store_frame:
  assumes "handleTranslate_store adapter st (ref, h) = (ref', h')"
  shows "take (length h) h' = h \<and>
         (trim (arabicText st) \<noteq> [] \<longrightarrow>
            length h \<le> ref' \<and>
            pairsAt h' ref' = Some (translationPairs (fst (handleTranslate adapter st))))"
proof (cases "trim (arabicText st) = []")
  case True
  with assms show ?thesis by (simp add: handleTranslate_store_def)
next
  case False
  show ?thesis
  proof (cases "adapter (arabicText st)")
    case (Inl err)
    with False assms have r: "ref' = length h" "h' = h @ [ArrayObj []]"
      by (auto simp: handleTranslate_store_def alloc_def)
    have v: "translationPairs (fst (handleTranslate adapter st)) = []"
      using False Inl
      by (simp add: handleTranslate_def handleTranslate_begin_def handleTranslate_settle_def)
    show ?thesis using r v False by (simp add: pairsAt_def readArray_def)
  next
    case (Inr result)
    with False assms have a: "allocArray result (h @ [ArrayObj []]) = (ref', h')"
      by (auto simp: handleTranslate_store_def alloc_def)
    have v: "translationPairs (fst (handleTranslate adapter st)) = result"
      using False Inr
      by (simp add: handleTranslate_def handleTranslate_begin_def handleTranslate_settle_def)
    from a have "take (length h) h' = h \<and> length h \<le> ref'"
      by (auto simp: allocArray_def alloc_def)
    with pairsAt_allocArray[OF a] v show ?thesis by simp
  qed
qed

text \<open>
  Claim C9. \<open>exportToWord\<close> does not modify its input: for every array of pairs, after the
  call every object that was in the store is as it was, the array holds the same pairs, and
  the one new object is the copy of the array without its first element (none when the
  array is empty). A translation puts the address of a new array into the state variable;
  every object that was in the store, the array of the earlier translation among them, is
  as it was.
\<close>

theorem export_and_translate_frame:
  "(pairsAt h data = Some pairs \<longrightarrow>
      (\<exists>h'. exportToWord_store export world h data = Some (export world pairs, h') \<and>
            take (length h) h' = h \<and> pairsAt h' data = Some pairs \<and>
            (pairs = [] \<longrightarrow> h' = h) \<and>
            (pairs \<noteq> [] \<longrightarrow>
               (\<exists>refs. readArray h data = Some refs \<and> h' = h @ [ArrayObj (tl refs)])))) \<and>
   (handleTranslate_store adapter st (ref, h) = (ref', h'') \<longrightarrow>
      take (length h) h'' = h \<and>
      (pairsAt h ref = Some old \<longrightarrow> pairsAt h'' ref = Some old) \<and>
      (trim (arabicText st) \<noteq> [] \<longrightarrow>
         length h \<le> ref' \<and>
         pairsAt h'' ref' = Some (translationPairs (fst (handleTranslate adapter st)))))"
proof -
  have 1: "pairsAt h'' ref = Some old"
    if "handleTranslate_store adapter st (ref, h) = (ref', h'')" "pairsAt h ref = Some old"
  proof -
    from handleTranslate_store_frame[OF that(1)] have "take (length h) h'' = h" by blast
    then have "h'' = h @ drop (length h) h''" by (metis append_take_drop_id)
    then show ?thesis using pairsAt_append[OF that(2), of "drop (length h) h''"] by simp
  qed
  show ?thesis
    using exportToWord_store_frame[of h data pairs export world]
      handleTranslate_store_frame[of adapter st ref h ref' h''] 1
    by blast
qed

theorem export_and_translate_frame_witness:
  "pairsAt exampleStore 2 = Some [exampleTitle, exampleRow] \<and>
   exportToWord_store (exportToWord_lines libraryWorking) emptyWorld exampleStore 2 =
     Some (exportToWord_lines libraryWorking emptyWorld [exampleTitle, exampleRow],
           exampleStore @ [ArrayObj [1]]) \<and>
   pairsAt (exampleStore @ [ArrayObj [1]]) 2 = Some [exampleTitle, exampleRow] \<and>
   handleTranslate_store (adapterResolving [exampleRow]) (stateWith [0x628] [] None) (2, exampleStore) =
     (5, exampleStore @ [ArrayObj [], PairObj exampleRow, ArrayObj [4]]) \<and>
   pairsAt (exampleStore @ [ArrayObj [], PairObj exampleRow, ArrayObj [4]]) 2 =
     Some [exampleTitle, exampleRow] \<and>
   pairsAt (exampleStore @ [ArrayObj [], PairObj exampleRow, ArrayObj [4]]) 5 = Some [exampleRow]"
proof -
  let ?st = "stateWith [0x628] [] None"
  let ?h2 = "exampleStore @ [ArrayObj [], PairObj exampleRow, ArrayObj [4]]"
  have p: "pairsAt exampleStore 2 = Some [exampleTitle, exampleRow]"
    by (simp add: pairsAt_def readArray_def readPair_def exampleStore_def)
  have ra: "readArray exampleStore 2 = Some [0, 1]"
    by (simp add: readArray_def exampleStore_def)
  have t: "handleTranslate_store (adapterResolving [exampleRow]) ?st (2, exampleStore) = (5, ?h2)"
    by (simp add: handleTranslate_store_def stateWith_def trim_def isWhiteSpace_def alloc_def
        allocArray_def adapterResolving_def exampleStore_def)
  have n: "trim (arabicText ?st) \<noteq> []"
    by (simp add: stateWith_def trim_def isWhiteSpace_def)
  have v: "translationPairs (fst (handleTranslate (adapterResolving [exampleRow]) ?st)) = [exampleRow]"
    by (simp add: handleTranslate_def handleTranslate_begin_def handleTranslate_settle_def
        stateWith_def trim_def isWhiteSpace_def adapterResolving_def)
  note f = export_and_translate_frame[where h = exampleStore and data = 2
      and pairs = "[exampleTitle, exampleRow]" and export = "exportToWord_lines libraryWorking"
      and world = emptyWorld and adapter = "adapterResolving [exampleRow]" and st = ?st
      and ref = 2 and ref' = 5 and h'' = ?h2 and old = "[exampleTitle, exampleRow]"]
  from f p ra have 1: "exportToWord_store (exportToWord_lines libraryWorking) emptyWorld exampleStore 2 =
     Some (exportToWord_lines libraryWorking emptyWorld [exampleTitle, exampleRow],
           exampleStore @ [ArrayObj [1]]) \<and>
     pairsAt (exampleStore @ [ArrayObj [1]]) 2 = Some [exampleTitle, exampleRow]"
    by auto
  from f t p n v have 2: "pairsAt ?h2 2 = Some [exampleTitle, exampleRow] \<and> pairsAt ?h2 5 = Some [exampleRow]"
    by auto
  show ?thesis using p 1 t 2 by blast
qed

end
